theory Spec2Isabelle
  imports Main "HOL-Library.Multiset"
begin

section \<open>Data model of the leaderboard page\<close>

text \<open>
  The page \<^verbatim>\<open>src/pages/Leaderboard.tsx\<close> reads four Firestore collections
  (\<^verbatim>\<open>players\<close>, \<^verbatim>\<open>matches\<close>, \<^verbatim>\<open>predictions\<close>, \<^verbatim>\<open>leaderboards\<close>) and writes one
  (\<^verbatim>\<open>leaderboards\<close>). Instants (\<^verbatim>\<open>Date\<close>, Firestore \<^verbatim>\<open>Timestamp\<close>) are the
  integer \<^verbatim>\<open>getTime()\<close> gives; \<^verbatim>\<open>toDate()\<close> keeps the instant. Point values and
  counts are JavaScript numbers holding integers, modelled as \<^typ>\<open>int\<close>.
\<close>

type_synonym time = int

datatype match_status = upcoming | live | completed

text \<open>
  Modelled from the spec: the declaration of \<^verbatim>\<open>Match\<close> in \<^verbatim>\<open>../types\<close> is not among
  the sources. The fields are those of the spec's data model, which are also the ones the
  edit form of the match administration page reads and writes.
\<close>

record match_data =
  team1 :: string
  team2 :: string
  venue :: string
  match_timestamp :: time
  description :: "string option"
  status :: match_status

text \<open>\<^verbatim>\<open>{ id: doc.id, ...doc.data() }\<close>: a match document together with its id.\<close>

record Match = match_data +
  match_id :: string

definition with_id :: "string \<times> match_data \<Rightarrow> Match" where
  "with_id d = match_data.extend (snd d) \<lparr>match_id = fst d\<rparr>"

text \<open>
  A field value that is there: the store keeps \<^verbatim>\<open>null\<close> as well as numbers.
  \<^verbatim>\<open>to_number\<close> is the conversion the comparison \<^verbatim>\<open>>=\<close> applies to its operands:
  \<^verbatim>\<open>null\<close> becomes \<open>0\<close>.
\<close>

datatype js_value = JsNull | JsNumber int

fun to_number :: "js_value \<Rightarrow> int" where
  "to_number JsNull = 0"
| "to_number (JsNumber n) = n"

text \<open>
  A player's target for one match: the number \<^verbatim>\<open>target.target\<close> and
  \<^verbatim>\<open>target.actualPoints\<close>, which is missing (\<^verbatim>\<open>undefined\<close>, \<^const>\<open>None\<close>),
  \<^verbatim>\<open>null\<close> or a number.
\<close>

record match_target =
  target :: int
  actualPoints :: "js_value option"

text \<open>
  A player document; \<^verbatim>\<open>matchTargets\<close> is an object keyed by match id and may be
  missing altogether (the code reads it through \<^verbatim>\<open>?.\<close>).
\<close>

record player =
  matchTargets :: "(string \<rightharpoonup> match_target) option"

text \<open>A prediction document (\<^verbatim>\<open>doc.data()\<close> of the \<^verbatim>\<open>predictions\<close> collection).\<close>

record prediction =
  pred_userId :: string
  pred_userEmail :: string
  pred_matchId :: string
  selectedPlayers :: "string list"

record LeaderboardEntry =
  userId :: string
  userEmail :: string
  displayName :: string
  correctPredictions :: int
  totalPredictions :: int
  matchId :: string
  matchDetails :: Match
  timestamp :: "time option"

text \<open>A document of the \<^verbatim>\<open>leaderboards\<close> collection, keyed by match id.\<close>

record leaderboard_doc =
  entries :: "LeaderboardEntry list"
  lastUpdated :: time

text \<open>
  The document store. Collections that are listed or queried are lists of
  (document id, data) in the order the query returns them; \<^verbatim>\<open>getDoc\<close> by id is
  \<^const>\<open>map_of\<close>. The \<^verbatim>\<open>leaderboards\<close> collection is only read and written by id.
\<close>

record db =
  players :: "(string \<times> player) list"
  matches :: "(string \<times> match_data) list"
  predictions :: "(string \<times> prediction) list"
  leaderboards :: "string \<rightharpoonup> leaderboard_doc"

text \<open>
  What the code cannot control: which awaited store call rejects, and what each
  \<^verbatim>\<open>new Date()\<close> reads. The reads are indexed by their place in the source and by
  the loop iteration, so every assignment of instants to reads is covered.
\<close>

datatype store_call =
  GetPlayers | GetMatch | GetPredictions | GetLeaderboard | SetLeaderboard | GetCompletedMatches

datatype date_site = AtPush nat | AtLastUpdated | AtCachedEntry nat

record env =
  now :: "date_site \<Rightarrow> time"
  rejects :: "store_call \<Rightarrow> bool"

datatype error = MatchNotFound | StorageUnavailable

section \<open>Library functions of the language\<close>

text \<open>
  \<^verbatim>\<open>s.split(c)\<close> for a one-character separator: the pieces between the occurrences
  of \<^verbatim>\<open>c\<close>, never an empty array.
\<close>

fun split_on :: "char \<Rightarrow> string \<Rightarrow> string list" where
  "split_on c [] = [[]]"
| "split_on c (x # xs) =
     (if x = c then [] # split_on c xs
      else (case split_on c xs of
              [] \<Rightarrow> [[x]]
            | piece # pieces \<Rightarrow> (x # piece) # pieces))"

text \<open>\<^verbatim>\<open>arr[0]\<close>: \<^verbatim>\<open>undefined\<close> on an empty array.\<close>

definition first_elem :: "'a list \<Rightarrow> 'a option" where
  "first_elem xs = (case xs of [] \<Rightarrow> None | x # _ \<Rightarrow> Some x)"

text \<open>
  \<^verbatim>\<open>Array.prototype.sort(cmp)\<close>: a stable sort (ECMAScript 2019); an element stays
  in front of a later one unless the comparator is positive on the pair.
\<close>

fun insert_by :: "('a \<Rightarrow> 'a \<Rightarrow> int) \<Rightarrow> 'a \<Rightarrow> 'a list \<Rightarrow> 'a list" where
  "insert_by cmp x [] = [x]"
| "insert_by cmp x (y # ys) =
     (if cmp x y \<le> 0 then x # y # ys else y # insert_by cmp x ys)"

fun array_sort :: "('a \<Rightarrow> 'a \<Rightarrow> int) \<Rightarrow> 'a list \<Rightarrow> 'a list" where
  "array_sort cmp [] = []"
| "array_sort cmp (x # xs) = insert_by cmp x (array_sort cmp xs)"

text \<open>\<^verbatim>\<open>arr.slice(0, n)\<close>.\<close>

definition slice0 :: "nat \<Rightarrow> 'a list \<Rightarrow> 'a list" where
  "slice0 n xs = take n xs"

section \<open>calculateLeaderboard\<close>

text \<open>
  \<^verbatim>\<open>playersSnapshot.docs.reduce((acc, doc) => { acc[doc.id] = ...; return acc }, {})\<close>
\<close>

definition playersData :: "(string \<times> player) list \<Rightarrow> (string \<rightharpoonup> player)" where
  "playersData docs = foldl (\<lambda>acc d. acc(fst d \<mapsto> snd d)) Map.empty docs"

text \<open>
  The reducer over \<^verbatim>\<open>prediction.selectedPlayers\<close>, branch by branch. The last test
  is \<^verbatim>\<open>target.actualPoints !== undefined && target.actualPoints >= target.target\<close>:
  only \<^verbatim>\<open>undefined\<close> is excluded, and \<^verbatim>\<open>>=\<close> compares numbers.
\<close>

definition countPick :: "(string \<rightharpoonup> player) \<Rightarrow> string \<Rightarrow> int \<Rightarrow> string \<Rightarrow> int" where
  "countPick pd mid acc playerId =
     (case pd playerId of
        None \<Rightarrow> acc
      | Some p \<Rightarrow>
          (case matchTargets p of
             None \<Rightarrow> acc
           | Some mts \<Rightarrow>
               (case mts mid of
                  None \<Rightarrow> acc
                | Some t \<Rightarrow>
                    (case actualPoints t of
                       None \<Rightarrow> acc
                     | Some a \<Rightarrow> if target t \<le> to_number a then acc + 1 else acc))))"

text \<open>
  \<^verbatim>\<open>prediction.userEmail.split('@')[0]\<close>. The array is never empty, so the
  \<^verbatim>\<open>undefined\<close> branch is there for totality only.
\<close>

definition display_name :: "string \<Rightarrow> string" where
  "display_name email = (case first_elem (split_on CHR ''@'' email) of None \<Rightarrow> [] | Some s \<Rightarrow> s)"

text \<open>The entry pushed for one prediction; \<^verbatim>\<open>t\<close> is what \<^verbatim>\<open>new Date()\<close> read.\<close>

definition mkEntry :: "(string \<rightharpoonup> player) \<Rightarrow> string \<Rightarrow> Match \<Rightarrow> time \<Rightarrow> prediction \<Rightarrow> LeaderboardEntry" where
  "mkEntry pd mid md t p =
     \<lparr>userId = pred_userId p,
      userEmail = pred_userEmail p,
      displayName = display_name (pred_userEmail p),
      correctPredictions = foldl (countPick pd mid) 0 (selectedPlayers p),
      totalPredictions = int (length (selectedPlayers p)),
      matchId = pred_matchId p,
      matchDetails = md,
      timestamp = Some t\<rparr>"

text \<open>The loop over \<^verbatim>\<open>predictionsSnapshot.docs\<close>; \<^verbatim>\<open>i\<close> counts the iterations.\<close>

fun pushEntries ::
  "env \<Rightarrow> (string \<rightharpoonup> player) \<Rightarrow> string \<Rightarrow> Match \<Rightarrow> nat \<Rightarrow> prediction list \<Rightarrow> LeaderboardEntry list" where
  "pushEntries e pd mid md i [] = []"
| "pushEntries e pd mid md i (p # ps) =
     mkEntry pd mid md (now e (AtPush i)) p # pushEntries e pd mid md (Suc i) ps"

text \<open>The query \<^verbatim>\<open>where('matchId', '==', matchId)\<close> on the predictions.\<close>

definition predictionsFor :: "db \<Rightarrow> string \<Rightarrow> prediction list" where
  "predictionsFor d mid = map snd (filter (\<lambda>doc. pred_matchId (snd doc) = mid) (predictions d))"

definition byCorrectDesc :: "LeaderboardEntry \<Rightarrow> LeaderboardEntry \<Rightarrow> int" where
  "byCorrectDesc a b = correctPredictions b - correctPredictions a"

text \<open>The body of the \<^verbatim>\<open>try\<close> block: every throw is an \<^const>\<open>Inl\<close>.\<close>

definition calculateLeaderboard_try :: "env \<Rightarrow> db \<Rightarrow> string \<Rightarrow> error + LeaderboardEntry list" where
  "calculateLeaderboard_try e d mid =
     (if rejects e GetPlayers then Inl StorageUnavailable
      else if rejects e GetMatch then Inl StorageUnavailable
      else (case map_of (matches d) mid of
              None \<Rightarrow> Inl MatchNotFound
            | Some m \<Rightarrow>
                if rejects e GetPredictions then Inl StorageUnavailable
                else Inr (slice0 10 (array_sort byCorrectDesc
                       (pushEntries e (playersData (players d)) mid (with_id (mid, m)) 0
                          (predictionsFor d mid))))))"

text \<open>
  The function with its \<^verbatim>\<open>catch\<close>: the error goes to \<^verbatim>\<open>console.error\<close> (second
  component) and the result is \<^verbatim>\<open>[]\<close>.
\<close>

definition calculateLeaderboard :: "env \<Rightarrow> db \<Rightarrow> string \<Rightarrow> LeaderboardEntry list \<times> error list" where
  "calculateLeaderboard e d mid =
     (case calculateLeaderboard_try e d mid of
        Inl err \<Rightarrow> ([], [err])
      | Inr r \<Rightarrow> (r, []))"

section \<open>fetchLeaderboard\<close>

text \<open>
  What one call leaves behind: the store, the React state it sets (\<^verbatim>\<open>leaderboard\<close>,
  \<^verbatim>\<open>loading\<close>), what it wrote with \<^verbatim>\<open>console.error\<close>, and the order of its
  effects: a call of \<^verbatim>\<open>calculateLeaderboard\<close>, a completed \<^verbatim>\<open>setDoc\<close>, the final
  \<^verbatim>\<open>setLeaderboard\<close>.
\<close>

datatype event = Computed string | Wrote string | Displayed

record outcome =
  store :: db
  leaderboard :: "LeaderboardEntry list"
  loading :: bool
  console :: "error list"
  trace :: "event list"

text \<open>
  The cached branch: \<^verbatim>\<open>data.entries.map(entry => ({...entry, timestamp:
  entry.timestamp?.toDate() || new Date()}))\<close>; \<^verbatim>\<open>i\<close> is the index of the entry.
\<close>

fun restore :: "env \<Rightarrow> nat \<Rightarrow> LeaderboardEntry list \<Rightarrow> LeaderboardEntry list" where
  "restore e i [] = []"
| "restore e i (x # xs) =
     x\<lparr>timestamp := Some (case timestamp x of Some t \<Rightarrow> t | None \<Rightarrow> now e (AtCachedEntry i))\<rparr>
       # restore e (Suc i) xs"

definition fetchLeaderboard :: "env \<Rightarrow> db \<Rightarrow> string \<Rightarrow> outcome" where
  "fetchLeaderboard e d mid =
     (if rejects e GetLeaderboard then
        \<lparr>store = d, leaderboard = [], loading = False,
         console = [StorageUnavailable], trace = [Displayed]\<rparr>
      else
        (case leaderboards d mid of
           Some data \<Rightarrow>
             \<lparr>store = d, leaderboard = restore e 0 (entries data), loading = False,
              console = [], trace = [Displayed]\<rparr>
         | None \<Rightarrow>
             (case calculateLeaderboard e d mid of
                (leaderboardData, logged) \<Rightarrow>
                  if 0 < length leaderboardData then
                    if rejects e SetLeaderboard then
                      \<lparr>store = d, leaderboard = [], loading = False,
                       console = logged @ [StorageUnavailable],
                       trace = [Computed mid, Displayed]\<rparr>
                    else
                      \<lparr>store = d\<lparr>leaderboards := (leaderboards d)
                         (mid \<mapsto> \<lparr>entries = leaderboardData, lastUpdated = now e AtLastUpdated\<rparr>)\<rparr>,
                       leaderboard = leaderboardData, loading = False,
                       console = logged,
                       trace = [Computed mid, Wrote mid, Displayed]\<rparr>
                  else
                    \<lparr>store = d, leaderboard = leaderboardData, loading = False,
                     console = logged, trace = [Computed mid, Displayed]\<rparr>)))"

text \<open>
  Calls made one after the other (each \<^verbatim>\<open>handleMatchChange\<close> awaits the call), every
  call with its own clock reads and store failures.
\<close>

fun fetchRepeatedly :: "env list \<Rightarrow> db \<Rightarrow> string \<Rightarrow> outcome list" where
  "fetchRepeatedly [] d mid = []"
| "fetchRepeatedly (e # es) d mid =
     (let r = fetchLeaderboard e d mid in r # fetchRepeatedly es (store r) mid)"

subsection \<open>Overlapping calls\<close>

text \<open>
  A call gives up control at each \<^verbatim>\<open>await\<close>. Only the \<^verbatim>\<open>leaderboards\<close> collection
  changes, so a call has three steps: the cache read, the computation, the write.
\<close>

datatype task =
  AtStart
| AfterMiss
| BeforeWrite "LeaderboardEntry list" "error list"
| Done "LeaderboardEntry list" "error list" "event list"

fun advance :: "env \<Rightarrow> string \<Rightarrow> db \<Rightarrow> task \<Rightarrow> db \<times> task" where
  "advance e mid d AtStart =
     (if rejects e GetLeaderboard then (d, Done [] [StorageUnavailable] [Displayed])
      else (case leaderboards d mid of
              Some data \<Rightarrow> (d, Done (restore e 0 (entries data)) [] [Displayed])
            | None \<Rightarrow> (d, AfterMiss)))"
| "advance e mid d AfterMiss =
     (case calculateLeaderboard e d mid of
        (leaderboardData, logged) \<Rightarrow>
          if 0 < length leaderboardData then (d, BeforeWrite leaderboardData logged)
          else (d, Done leaderboardData logged [Computed mid, Displayed]))"
| "advance e mid d (BeforeWrite leaderboardData logged) =
     (if rejects e SetLeaderboard then
        (d, Done [] (logged @ [StorageUnavailable]) [Computed mid, Displayed])
      else
        (d\<lparr>leaderboards := (leaderboards d)
            (mid \<mapsto> \<lparr>entries = leaderboardData, lastUpdated = now e AtLastUpdated\<rparr>)\<rparr>,
         Done leaderboardData logged [Computed mid, Wrote mid, Displayed]))"
| "advance e mid d (Done shown logged tr) = (d, Done shown logged tr)"

text \<open>A schedule names, step by step, the call that runs next.\<close>

fun run :: "env list \<Rightarrow> string \<Rightarrow> nat list \<Rightarrow> db \<times> task list \<Rightarrow> db \<times> task list" where
  "run es mid [] s = s"
| "run es mid (i # sched) (d, ts) =
     (if i < length ts \<and> i < length es then
        (case advance (es ! i) mid d (ts ! i) of
           (d', t') \<Rightarrow> run es mid sched (d', ts[i := t']))
      else run es mid sched (d, ts))"

definition task_trace :: "task \<Rightarrow> event list" where
  "task_trace t = (case t of Done shown logged tr \<Rightarrow> tr | _ \<Rightarrow> [])"

text \<open>A finished call, and the schedule that runs \<open>n\<close> calls one after the other.\<close>

definition done_of :: "outcome \<Rightarrow> task" where
  "done_of r = Done (leaderboard r) (console r) (trace r)"

definition one_after_another :: "nat \<Rightarrow> nat list" where
  "one_after_another n = concat (map (\<lambda>i. [i, i, i]) [0..<n])"

section \<open>fetchCompletedMatches\<close>

text \<open>
  The state the function sets on mount, from the initial \<^verbatim>\<open>useState\<close> values
  (\<^verbatim>\<open>[]\<close> and \<^verbatim>\<open>'all'\<close>), and the leaderboard call it makes for the first match.
\<close>

record page =
  completedMatches :: "Match list"
  selectedMatch :: string
  fetched :: "outcome option"
  page_console :: "error list"

definition byTimestampDesc :: "Match \<Rightarrow> Match \<Rightarrow> int" where
  "byTimestampDesc a b = match_timestamp b - match_timestamp a"

text \<open>The query \<^verbatim>\<open>where('status', '==', 'completed')\<close> on the matches.\<close>

definition completedDocs :: "db \<Rightarrow> (string \<times> match_data) list" where
  "completedDocs d = filter (\<lambda>doc. status (snd doc) = completed) (matches d)"

definition fetchCompletedMatches :: "env \<Rightarrow> db \<Rightarrow> page" where
  "fetchCompletedMatches e d =
     (if rejects e GetCompletedMatches then
        \<lparr>completedMatches = [], selectedMatch = ''all'', fetched = None,
         page_console = [StorageUnavailable]\<rparr>
      else
        (let ms = array_sort byTimestampDesc (map with_id (completedDocs d)) in
           (case ms of
              [] \<Rightarrow>
                \<lparr>completedMatches = ms, selectedMatch = ''all'', fetched = None,
                 page_console = []\<rparr>
            | m # _ \<Rightarrow>
                \<lparr>completedMatches = ms, selectedMatch = match_id m,
                 fetched = Some (fetchLeaderboard e d (match_id m)),
                 page_console = []\<rparr>)))"

section \<open>The specification's notions\<close>

text \<open>
  The target record of a player for a match, read from the player documents, if there
  is one, and the specification's notion of a correct pick: an actual value is present
  and reaches the target. A stored \<^verbatim>\<open>null\<close> is no actual value.
\<close>

definition playerMatchTarget :: "(string \<times> player) list \<Rightarrow> string \<Rightarrow> string \<Rightarrow> match_target option" where
  "playerMatchTarget docs mid playerId =
     Option.bind (map_of docs playerId) (\<lambda>p. Option.bind (matchTargets p) (\<lambda>mts. mts mid))"

definition pickCorrect :: "(string \<times> player) list \<Rightarrow> string \<Rightarrow> string \<Rightarrow> bool" where
  "pickCorrect docs mid playerId =
     (case playerMatchTarget docs mid playerId of
        None \<Rightarrow> False
      | Some t \<Rightarrow>
          (case actualPoints t of
             None \<Rightarrow> False
           | Some JsNull \<Rightarrow> False
           | Some (JsNumber a) \<Rightarrow> target t \<le> a))"

text \<open>
  A pick without an actual value that the reducer counts all the same: the target record
  holds \<^verbatim>\<open>null\<close> as actual value and a target that is not positive.
\<close>

definition nullCounted :: "(string \<times> player) list \<Rightarrow> string \<Rightarrow> string \<Rightarrow> bool" where
  "nullCounted docs mid playerId =
     (case playerMatchTarget docs mid playerId of
        None \<Rightarrow> False
      | Some t \<Rightarrow> actualPoints t = Some JsNull \<and> target t \<le> 0)"

text \<open>An entry without the instant of its computation.\<close>

definition sans_timestamp :: "LeaderboardEntry \<Rightarrow> LeaderboardEntry" where
  "sans_timestamp x = x\<lparr>timestamp := None\<rparr>"

definition no_failure :: "env \<Rightarrow> bool" where
  "no_failure e = (\<not> rejects e GetPlayers \<and> \<not> rejects e GetMatch \<and> \<not> rejects e GetPredictions
     \<and> \<not> rejects e GetLeaderboard \<and> \<not> rejects e SetLeaderboard)"

section \<open>Example data\<close>

definition mk_target :: "string \<Rightarrow> int \<Rightarrow> js_value option \<Rightarrow> player" where
  "mk_target mid t a = \<lparr>matchTargets = Some [mid \<mapsto> \<lparr>target = t, actualPoints = a\<rparr>]\<rparr>"

definition mk_match :: "time \<Rightarrow> match_status \<Rightarrow> match_data" where
  "mk_match t s = \<lparr>team1 = ''IND'', team2 = ''AUS'', venue = ''Pune'', match_timestamp = t,
     description = None, status = s\<rparr>"

definition mk_prediction :: "string \<Rightarrow> string \<Rightarrow> string \<Rightarrow> string list \<Rightarrow> prediction" where
  "mk_prediction u mail mid ps =
     \<lparr>pred_userId = u, pred_userEmail = mail, pred_matchId = mid, selectedPlayers = ps\<rparr>"

text \<open>
  Match \<open>M1\<close> is completed and has the five predictions of the specification's examples
  (A 2/3, B 3/3, C 1/3, then D and E with 2/3 each); \<open>M2\<close> is live; \<open>M3\<close> is completed
  and has no prediction. Player \<open>p4\<close> has no actual value yet, \<open>p5\<close> has a target for
  another match only, \<open>p8\<close> has no targets and \<open>p6\<close> has no document.
\<close>

definition ex_db :: db where
  "ex_db =
     \<lparr>players =
        [(''p1'', mk_target ''M1'' 30 (Some (JsNumber 45))),
         (''p2'', mk_target ''M1'' 50 (Some (JsNumber 50))),
         (''p3'', mk_target ''M1'' 20 (Some (JsNumber 10))),
         (''p4'', mk_target ''M1'' 25 None),
         (''p5'', mk_target ''M2'' 5 (Some (JsNumber 9))),
         (''p7'', mk_target ''M1'' 10 (Some (JsNumber 12))),
         (''p8'', \<lparr>matchTargets = None\<rparr>)],
      matches =
        [(''M1'', mk_match 1000 completed),
         (''M2'', mk_match 2000 live),
         (''M3'', mk_match 3000 completed)],
      predictions =
        [(''d1'', mk_prediction ''A'' ''a@x.org'' ''M1'' [''p1'', ''p2'', ''p3'']),
         (''d2'', mk_prediction ''B'' ''b@x.org'' ''M1'' [''p1'', ''p2'', ''p7'']),
         (''d3'', mk_prediction ''Z'' ''z@x.org'' ''M2'' [''p5'', ''p1'', ''p2'']),
         (''d4'', mk_prediction ''C'' ''c@x.org'' ''M1'' [''p1'', ''p3'', ''p4'']),
         (''d5'', mk_prediction ''D'' ''d@x.org'' ''M1'' [''p1'', ''p2'', ''p5'']),
         (''d6'', mk_prediction ''E'' ''e'' ''M1'' [''p2'', ''p7'', ''p6''])],
      leaderboards = Map.empty\<rparr>"

definition ex_clock :: "time \<Rightarrow> date_site \<Rightarrow> time" where
  "ex_clock t0 site =
     (case site of AtPush i \<Rightarrow> t0 + int i | AtLastUpdated \<Rightarrow> t0 + 500 | AtCachedEntry i \<Rightarrow> t0 + int i)"

definition ex_env :: env where
  "ex_env = \<lparr>now = ex_clock 5000, rejects = (\<lambda>c. False)\<rparr>"

definition ex_env_later :: env where
  "ex_env_later = \<lparr>now = ex_clock 9000, rejects = (\<lambda>c. False)\<rparr>"

definition ex_env_rejecting :: "store_call \<Rightarrow> env" where
  "ex_env_rejecting c = \<lparr>now = ex_clock 5000, rejects = (\<lambda>c'. c' = c)\<rparr>"

text \<open>A store whose cached leaderboard of \<open>M3\<close> has an entry without a timestamp.\<close>

definition ex_entry :: LeaderboardEntry where
  "ex_entry =
     \<lparr>userId = ''A'', userEmail = ''a@x.org'', displayName = ''a'', correctPredictions = 1,
      totalPredictions = 3, matchId = ''M3'', matchDetails = with_id (''M3'', mk_match 3000 completed),
      timestamp = None\<rparr>"

definition ex_cached_db :: db where
  "ex_cached_db = ex_db\<lparr>leaderboards := [''M3'' \<mapsto> \<lparr>entries = [ex_entry], lastUpdated = 4000\<rparr>]\<rparr>"

text \<open>
  A store in which the actual values of match \<open>M5\<close> are not in yet: \<open>p9\<close> and \<open>p10\<close>
  hold \<^verbatim>\<open>null\<close>, with targets \<open>0\<close> and \<open>10\<close>, and \<open>p11\<close> has no actual value
  at all.
\<close>

definition ex_null_db :: db where
  "ex_null_db =
     \<lparr>players =
        [(''p9'', mk_target ''M5'' 0 (Some JsNull)),
         (''p10'', mk_target ''M5'' 10 (Some JsNull)),
         (''p11'', mk_target ''M5'' 10 None)],
      matches = [(''M5'', mk_match 5000 completed)],
      predictions =
        [(''d9'', mk_prediction ''N'' ''n@x.org'' ''M5'' [''p9'', ''p10'', ''p11''])],
      leaderboards = Map.empty\<rparr>"

text \<open>The same store with the timestamp in place.\<close>

definition ex_stamped_doc :: leaderboard_doc where
  "ex_stamped_doc = \<lparr>entries = [ex_entry\<lparr>timestamp := Some 3500\<rparr>], lastUpdated = 4000\<rparr>"

definition ex_stamped_db :: db where
  "ex_stamped_db = ex_db\<lparr>leaderboards := [''M3'' \<mapsto> ex_stamped_doc]\<rparr>"

section \<open>Helper lemmas\<close>

lemmas example_defs = ex_db_def ex_env_def ex_env_later_def ex_clock_def mk_target_def
  mk_match_def mk_prediction_def ex_entry_def ex_cached_db_def

lemmas calculate_defs = calculateLeaderboard_def calculateLeaderboard_try_def predictionsFor_def
  playersData_def mkEntry_def countPick_def display_name_def first_elem_def slice0_def
  byCorrectDesc_def with_id_def match_data.extend_def

lemma countPick_bounds:
  "acc \<le> countPick pd mid acc pid \<and> countPick pd mid acc pid \<le> acc + 1"
  by (simp add: countPick_def split: option.splits)

lemma foldl_countPick_bounds:
  "acc \<le> foldl (countPick pd mid) acc ps \<and> foldl (countPick pd mid) acc ps \<le> acc + int (length ps)"
proof (induction ps arbitrary: acc)
  case Nil
  then show ?case by simp
next
  case (Cons pid ps)
  from countPick_bounds [of acc pd mid pid] Cons.IH [of "countPick pd mid acc pid"]
  show ?case by simp
qed

lemma countPick_exact:
  "countPick (map_of docs) mid acc pid =
     acc + (if pickCorrect docs mid pid \<or> nullCounted docs mid pid then 1 else 0)"
  by (simp add: countPick_def pickCorrect_def nullCounted_def playerMatchTarget_def
      split: option.splits js_value.splits)

lemma foldl_countPick_exact:
  "foldl (countPick (map_of docs) mid) acc ps =
     acc + int (length (filter (\<lambda>pid. pickCorrect docs mid pid \<or> nullCounted docs mid pid) ps))"
  by (induction ps arbitrary: acc) (simp_all add: countPick_exact)

lemma foldl_update_map_of:
  "distinct (map fst docs) \<Longrightarrow>
   foldl (\<lambda>acc d. acc(fst d \<mapsto> snd d)) m docs = m ++ map_of docs"
proof (induction docs arbitrary: m)
  case Nil
  then show ?case by simp
next
  case (Cons doc docs)
  obtain k v where doc: "doc = (k, v)" by (cases doc)
  from Cons.prems have k: "k \<notin> fst ` set docs" and dist: "distinct (map fst docs)"
    by (simp_all add: doc)
  from k have none: "map_of docs k = None"
    by (simp add: map_of_eq_None_iff)
  have "foldl (\<lambda>acc d. acc(fst d \<mapsto> snd d)) m (doc # docs) =
        foldl (\<lambda>acc d. acc(fst d \<mapsto> snd d)) (m(k \<mapsto> v)) docs"
    by (simp only: foldl_Cons doc fst_conv snd_conv)
  also have "\<dots> = m(k \<mapsto> v) ++ map_of docs"
    by (rule Cons.IH [OF dist])
  also have "\<dots> = m ++ map_of (doc # docs)"
    by (rule ext) (simp add: map_add_def none doc split: option.splits)
  finally show ?case .
qed

lemma playersData_map_of: "distinct (map fst docs) \<Longrightarrow> playersData docs = map_of docs"
  by (simp add: playersData_def foldl_update_map_of)

lemma first_split_on: "first_elem (split_on c s) = Some (takeWhile (\<lambda>x. x \<noteq> c) s)"
  by (induction s) (simp_all add: first_elem_def split: list.splits)

lemma display_name_takeWhile: "display_name s = takeWhile (\<lambda>x. x \<noteq> CHR ''@'') s"
  by (simp add: display_name_def first_split_on)

lemma set_pushEntries:
  "x \<in> set (pushEntries e pd mid md i ps) \<Longrightarrow> \<exists>p \<in> set ps. \<exists>t. x = mkEntry pd mid md t p"
  by (induction ps arbitrary: i) auto

lemma mset_insert_by: "mset (insert_by cmp x ys) = add_mset x (mset ys)"
  by (induction ys) simp_all

lemma mset_array_sort: "mset (array_sort cmp xs) = mset xs"
  by (induction xs) (simp_all add: mset_insert_by)

lemma set_array_sort: "set (array_sort cmp xs) = set xs"
  by (metis mset_array_sort set_mset_mset)

lemma sorted_insert_by:
  "sorted_wrt (\<lambda>a b. k b \<le> k a) ys \<Longrightarrow>
   sorted_wrt (\<lambda>a b. k b \<le> k a) (insert_by (\<lambda>a b. k b - k a) x ys)"
proof (induction ys)
  case Nil
  then show ?case by simp
next
  case (Cons y ys)
  have "set (insert_by (\<lambda>a b. k b - k a) x ys) = insert x (set ys)"
    by (metis mset_insert_by set_mset_add_mset_insert set_mset_mset)
  with Cons show ?case by auto
qed

lemma sorted_array_sort:
  "sorted_wrt (\<lambda>a b. (k b :: int) \<le> k a) (array_sort (\<lambda>a b. k b - k a) xs)"
  by (induction xs) (simp_all add: sorted_insert_by)

lemma filter_insert_by:
  "filter (\<lambda>y. k y = c) (insert_by (\<lambda>a b. k b - k a) x ys) =
     (if k x = c then x # filter (\<lambda>y. k y = c) ys else filter (\<lambda>y. (k y :: int) = c) ys)"
  by (induction ys) auto

lemma filter_array_sort:
  "filter (\<lambda>y. k y = c) (array_sort (\<lambda>a b. k b - k a) xs) = filter (\<lambda>y. (k y :: int) = c) xs"
  by (induction xs) (simp_all add: filter_insert_by)

lemma byCorrectDesc_eq: "byCorrectDesc = (\<lambda>a b. correctPredictions b - correctPredictions a)"
  by (simp add: byCorrectDesc_def fun_eq_iff)

lemma byTimestampDesc_eq: "byTimestampDesc = (\<lambda>a b. match_timestamp b - match_timestamp a)"
  by (simp add: byTimestampDesc_def fun_eq_iff)

lemma calculate_try_Inr:
  "calculateLeaderboard_try e d mid = Inr out \<Longrightarrow>
   \<exists>m. map_of (matches d) mid = Some m \<and>
     out = slice0 10 (array_sort byCorrectDesc
       (pushEntries e (playersData (players d)) mid (with_id (mid, m)) 0 (predictionsFor d mid)))"
  by (auto simp: calculateLeaderboard_try_def split: if_splits option.splits)

lemma set_calculate_try:
  assumes "calculateLeaderboard_try e d mid = Inr out" and "x \<in> set out"
  shows "\<exists>m p t. map_of (matches d) mid = Some m \<and> p \<in> set (predictionsFor d mid) \<and>
           x = mkEntry (playersData (players d)) mid (with_id (mid, m)) t p"
proof -
  from calculate_try_Inr [OF assms(1)] obtain m where
    m: "map_of (matches d) mid = Some m" and
    out: "out = slice0 10 (array_sort byCorrectDesc
       (pushEntries e (playersData (players d)) mid (with_id (mid, m)) 0 (predictionsFor d mid)))"
    by blast
  from assms(2) have "x \<in> set (pushEntries e (playersData (players d)) mid (with_id (mid, m)) 0
       (predictionsFor d mid))"
    unfolding out slice0_def using set_array_sort in_set_takeD by fastforce
  from set_pushEntries [OF this] m show ?thesis by blast
qed

lemma set_calculate:
  assumes "x \<in> set (fst (calculateLeaderboard e d mid))"
  shows "\<exists>m p t. map_of (matches d) mid = Some m \<and> p \<in> set (predictionsFor d mid) \<and>
           x = mkEntry (playersData (players d)) mid (with_id (mid, m)) t p"
proof (cases "calculateLeaderboard_try e d mid")
  case (Inl err)
  with assms show ?thesis by (simp add: calculateLeaderboard_def)
next
  case (Inr out)
  with assms have "x \<in> set out" by (simp add: calculateLeaderboard_def)
  from set_calculate_try [OF Inr this] show ?thesis .
qed

section \<open>Scoring, ranking and display names\<close>

text \<open>
  What the reducer counts, read from the player documents (whose ids are distinct in a
  collection): the correct picks of the specification, and the picks whose stored actual
  value is \<^verbatim>\<open>null\<close> while the target is not positive. \<^verbatim>\<open>totalPredictions\<close> is
  the number of selected players.
\<close>

lemma score_counts_correct_and_null_picks:
  assumes "distinct (map fst (players d))"
    and "x \<in> set (fst (calculateLeaderboard e d mid))"
  shows "\<exists>p \<in> set (predictionsFor d mid).
          userId x = pred_userId p \<and> userEmail x = pred_userEmail p \<and>
          correctPredictions x =
            int (length (filter (\<lambda>pid. pickCorrect (players d) mid pid \<or> nullCounted (players d) mid pid)
                   (selectedPlayers p))) \<and>
          totalPredictions x = int (length (selectedPlayers p))"
proof -
  from set_calculate [OF assms(2)] obtain m p t where
    p: "p \<in> set (predictionsFor d mid)" and
    x: "x = mkEntry (playersData (players d)) mid (with_id (mid, m)) t p"
    by blast
  from p show ?thesis
    by (intro bexI [of _ p])
      (simp_all add: x mkEntry_def playersData_map_of [OF assms(1)] foldl_countPick_exact)
qed

text \<open>
  Claim C1. A pick whose actual value is absent must count as not correct. The reducer
  excludes \<^verbatim>\<open>undefined\<close> only, so a stored \<^verbatim>\<open>null\<close> reaches the comparison and
  is compared as \<open>0\<close>. In the store \<^const>\<open>ex_null_db\<close> none of the three picks of the
  prediction for \<open>M5\<close> has an actual value, so none is correct, and the computed entry
  reports one correct pick of three: the pick of \<open>p9\<close>, whose target is \<open>0\<close>.
\<close>

theorem null_actual_is_counted_when_target_not_positive:
  "playerMatchTarget (players ex_null_db) ''M5'' ''p9'' = Some \<lparr>target = 0, actualPoints = Some JsNull\<rparr>
   \<and> map selectedPlayers (predictionsFor ex_null_db ''M5'') = [[''p9'', ''p10'', ''p11'']]
   \<and> filter (pickCorrect (players ex_null_db) ''M5'') [''p9'', ''p10'', ''p11''] = []
   \<and> map correctPredictions (fst (calculateLeaderboard ex_env ex_null_db ''M5'')) = [1]
   \<and> map totalPredictions (fst (calculateLeaderboard ex_env ex_null_db ''M5'')) = [3]"
  by (simp add: ex_null_db_def ex_env_def ex_clock_def mk_target_def mk_match_def mk_prediction_def
      playerMatchTarget_def pickCorrect_def calculate_defs)

lemma pushEntries_enumerate:
  "pushEntries e pd mid md i ps =
     map (\<lambda>(j, p). mkEntry pd mid md (now e (AtPush j)) p) (enumerate i ps)"
  by (induction ps arbitrary: i) simp_all

text \<open>
  Claim C2. The computed leaderboard is the first ten entries of a ranking that holds
  one entry per prediction of the match, is ordered by \<^verbatim>\<open>correctPredictions\<close>
  descending, and keeps entries with equal counts in the order of the predictions.
\<close>

theorem ranking_sorted_stable_top10:
  assumes "calculateLeaderboard_try e d mid = Inr out"
  shows "\<exists>m ranked.
           map_of (matches d) mid = Some m \<and>
           (let scored = map (\<lambda>(j, p). mkEntry (playersData (players d)) mid (with_id (mid, m))
                               (now e (AtPush j)) p)
                           (enumerate 0 (predictionsFor d mid))
            in mset ranked = mset scored \<and>
               sorted_wrt (\<lambda>a b. correctPredictions b \<le> correctPredictions a) ranked \<and>
               (\<forall>k. filter (\<lambda>x. correctPredictions x = k) ranked =
                     filter (\<lambda>x. correctPredictions x = k) scored) \<and>
               out = take 10 ranked \<and>
               length out = min 10 (length (predictionsFor d mid)))"
proof -
  from calculate_try_Inr [OF assms] obtain m where
    m: "map_of (matches d) mid = Some m" and
    out: "out = slice0 10 (array_sort byCorrectDesc
       (pushEntries e (playersData (players d)) mid (with_id (mid, m)) 0 (predictionsFor d mid)))"
    by blast
  define scored where "scored = pushEntries e (playersData (players d)) mid (with_id (mid, m)) 0
    (predictionsFor d mid)"
  define ranked where "ranked = array_sort byCorrectDesc scored"
  have scored_eq: "scored = map (\<lambda>(j, p). mkEntry (playersData (players d)) mid (with_id (mid, m))
                               (now e (AtPush j)) p) (enumerate 0 (predictionsFor d mid))"
    by (simp add: scored_def pushEntries_enumerate)
  have 1: "mset ranked = mset scored"
    by (simp add: ranked_def mset_array_sort)
  have 2: "sorted_wrt (\<lambda>a b. correctPredictions b \<le> correctPredictions a) ranked"
    by (simp add: ranked_def byCorrectDesc_eq sorted_array_sort)
  have 3: "\<forall>k. filter (\<lambda>x. correctPredictions x = k) ranked =
                filter (\<lambda>x. correctPredictions x = k) scored"
    by (simp add: ranked_def byCorrectDesc_eq filter_array_sort)
  have 4: "out = take 10 ranked"
    by (simp add: out ranked_def scored_def slice0_def)
  have "length ranked = length scored"
    using 1 by (metis size_mset)
  moreover have "length scored = length (predictionsFor d mid)"
    by (simp add: scored_eq)
  ultimately have 5: "length out = min 10 (length (predictionsFor d mid))"
    by (simp add: 4 min.commute)
  from m 1 2 3 4 5 show ?thesis
    unfolding scored_eq Let_def by blast
qed

theorem ranking_sorted_stable_top10_witness:
  "calculateLeaderboard_try ex_env ex_db ''M1'' = Inr (fst (calculateLeaderboard ex_env ex_db ''M1''))
   \<and> map userId (fst (calculateLeaderboard ex_env ex_db ''M1'')) = [''B'', ''A'', ''D'', ''E'', ''C'']
   \<and> (\<exists>m ranked.
           map_of (matches ex_db) ''M1'' = Some m \<and>
           (let scored = map (\<lambda>(j, p). mkEntry (playersData (players ex_db)) ''M1'' (with_id (''M1'', m))
                               (now ex_env (AtPush j)) p)
                           (enumerate 0 (predictionsFor ex_db ''M1''))
            in mset ranked = mset scored \<and>
               sorted_wrt (\<lambda>a b. correctPredictions b \<le> correctPredictions a) ranked \<and>
               (\<forall>k. filter (\<lambda>x. correctPredictions x = k) ranked =
                     filter (\<lambda>x. correctPredictions x = k) scored) \<and>
               fst (calculateLeaderboard ex_env ex_db ''M1'') = take 10 ranked \<and>
               length (fst (calculateLeaderboard ex_env ex_db ''M1'')) =
                 min 10 (length (predictionsFor ex_db ''M1''))))"
proof -
  have ok: "calculateLeaderboard_try ex_env ex_db ''M1'' = Inr (fst (calculateLeaderboard ex_env ex_db ''M1''))"
    by (simp add: calculateLeaderboard_def calculateLeaderboard_try_def ex_db_def ex_env_def)
  have ids: "map userId (fst (calculateLeaderboard ex_env ex_db ''M1'')) = [''B'', ''A'', ''D'', ''E'', ''C'']"
    by (simp add: example_defs calculate_defs)
  from ok ids ranking_sorted_stable_top10 [OF ok] show ?thesis by blast
qed

text \<open>
  Claim C9. Every entry the computation produces, and every entry a cache miss displays
  and persists, has \<open>0 \<le> correctPredictions \<le> totalPredictions\<close>.
\<close>

theorem correct_between_zero_and_total:
  "(\<forall>x \<in> set (fst (calculateLeaderboard e d mid)).
      0 \<le> correctPredictions x \<and> correctPredictions x \<le> totalPredictions x)
   \<and> (leaderboards d mid = None \<longrightarrow>
        (\<forall>x \<in> set (leaderboard (fetchLeaderboard e d mid)).
           0 \<le> correctPredictions x \<and> correctPredictions x \<le> totalPredictions x))"
proof -
  have calc: "0 \<le> correctPredictions x \<and> correctPredictions x \<le> totalPredictions x"
    if "x \<in> set (fst (calculateLeaderboard e d mid))" for x
  proof -
    from set_calculate [OF that] obtain m p t where
      x: "x = mkEntry (playersData (players d)) mid (with_id (mid, m)) t p"
      by blast
    show ?thesis
      using foldl_countPick_bounds [of 0 "playersData (players d)" mid "selectedPlayers p"]
      by (simp add: x mkEntry_def)
  qed
  have "set (leaderboard (fetchLeaderboard e d mid)) \<subseteq> set (fst (calculateLeaderboard e d mid))"
    if "leaderboards d mid = None"
    using that by (auto simp: fetchLeaderboard_def split: prod.splits)
  with calc show ?thesis by blast
qed

theorem correct_between_zero_and_total_witness:
  "hd (fst (calculateLeaderboard ex_env ex_db ''M1'')) \<in> set (fst (calculateLeaderboard ex_env ex_db ''M1''))
   \<and> 0 \<le> correctPredictions (hd (fst (calculateLeaderboard ex_env ex_db ''M1'')))
   \<and> correctPredictions (hd (fst (calculateLeaderboard ex_env ex_db ''M1'')))
       \<le> totalPredictions (hd (fst (calculateLeaderboard ex_env ex_db ''M1'')))
   \<and> leaderboards ex_db ''M1'' = None
   \<and> hd (fst (calculateLeaderboard ex_env ex_db ''M1'')) \<in> set (leaderboard (fetchLeaderboard ex_env ex_db ''M1''))"
proof -
  let ?out = "fst (calculateLeaderboard ex_env ex_db ''M1'')"
  have "map userId ?out = [''B'', ''A'', ''D'', ''E'', ''C'']"
    by (simp add: example_defs calculate_defs)
  then have ne: "?out \<noteq> []" by auto
  then have mem: "hd ?out \<in> set ?out" by simp
  have miss: "leaderboards ex_db ''M1'' = None"
    by (simp add: ex_db_def)
  have "leaderboard (fetchLeaderboard ex_env ex_db ''M1'') = ?out"
    using ne by (simp add: fetchLeaderboard_def miss ex_env_def split: prod.splits)
  with mem miss correct_between_zero_and_total [of ex_env ex_db "''M1''"] show ?thesis
    by simp
qed

text \<open>
  Claim C10. The display name of a prediction's entry is the part of the user's email
  address in front of the first \<open>@\<close>, and the whole address when it has none.
\<close>

theorem displayName_is_email_before_at:
  "displayName (mkEntry pd mid md t p) = takeWhile (\<lambda>c. c \<noteq> CHR ''@'') (pred_userEmail p)
   \<and> map displayName (pushEntries e pd mid md i ps) =
       map (\<lambda>p. takeWhile (\<lambda>c. c \<noteq> CHR ''@'') (pred_userEmail p)) ps
   \<and> (\<forall>x \<in> set (fst (calculateLeaderboard e d mid)).
        displayName x = takeWhile (\<lambda>c. c \<noteq> CHR ''@'') (userEmail x))"
proof (intro conjI ballI)
  show "displayName (mkEntry pd mid md t p) = takeWhile (\<lambda>c. c \<noteq> CHR ''@'') (pred_userEmail p)"
    by (simp add: mkEntry_def display_name_takeWhile)
  show "map displayName (pushEntries e pd mid md i ps) =
       map (\<lambda>p. takeWhile (\<lambda>c. c \<noteq> CHR ''@'') (pred_userEmail p)) ps"
    by (induction ps arbitrary: i) (simp_all add: mkEntry_def display_name_takeWhile)
next
  fix x assume "x \<in> set (fst (calculateLeaderboard e d mid))"
  from set_calculate [OF this] obtain m p t where
    x: "x = mkEntry (playersData (players d)) mid (with_id (mid, m)) t p"
    by blast
  show "displayName x = takeWhile (\<lambda>c. c \<noteq> CHR ''@'') (userEmail x)"
    by (simp add: x mkEntry_def display_name_takeWhile)
qed

theorem displayName_is_email_before_at_witness:
  "hd (fst (calculateLeaderboard ex_env ex_db ''M1'')) \<in> set (fst (calculateLeaderboard ex_env ex_db ''M1''))
   \<and> userEmail (hd (fst (calculateLeaderboard ex_env ex_db ''M1''))) = ''b@x.org''
   \<and> displayName (hd (fst (calculateLeaderboard ex_env ex_db ''M1''))) = ''b''"
proof -
  let ?out = "fst (calculateLeaderboard ex_env ex_db ''M1'')"
  have mail: "map userEmail ?out = [''b@x.org'', ''a@x.org'', ''d@x.org'', ''e'', ''c@x.org'']"
    by (simp add: example_defs calculate_defs)
  then have ne: "?out \<noteq> []" by auto
  then have mem: "hd ?out \<in> set ?out" by simp
  from mail ne have hd_mail: "userEmail (hd ?out) = ''b@x.org''"
    by (cases ?out) simp_all
  from displayName_is_email_before_at [where e = ex_env and d = ex_db and mid = "''M1''"] mem
  have "displayName (hd ?out) = takeWhile (\<lambda>c. c \<noteq> CHR ''@'') (userEmail (hd ?out))"
    by blast
  with mem hd_mail show ?thesis by simp
qed

section \<open>The cache\<close>

lemma length_pushEntries: "length (pushEntries e pd mid md i ps) = length ps"
  by (induction ps arbitrary: i) simp_all

lemma length_array_sort: "length (array_sort cmp xs) = length xs"
  by (metis mset_array_sort size_mset)

lemma calculate_ok:
  assumes "\<not> rejects e GetPlayers" "\<not> rejects e GetMatch" "\<not> rejects e GetPredictions"
    and "map_of (matches d) mid = Some m"
  shows "calculateLeaderboard e d mid =
     (slice0 10 (array_sort byCorrectDesc
        (pushEntries e (playersData (players d)) mid (with_id (mid, m)) 0 (predictionsFor d mid))), [])"
  using assms by (simp add: calculateLeaderboard_def calculateLeaderboard_try_def)

lemma calculate_ok_empty_iff:
  assumes "\<not> rejects e GetPlayers" "\<not> rejects e GetMatch" "\<not> rejects e GetPredictions"
    and "map_of (matches d) mid = Some m"
  shows "fst (calculateLeaderboard e d mid) = [] \<longleftrightarrow> predictionsFor d mid = []"
proof -
  have "length (fst (calculateLeaderboard e d mid)) = min 10 (length (predictionsFor d mid))"
    by (simp add: calculate_ok [OF assms] slice0_def length_array_sort length_pushEntries min.commute)
  then show ?thesis
    by (metis length_0_conv min_less_iff_conj length_greater_0_conv zero_less_numeral)
qed

lemma calculate_error_empty:
  "snd (calculateLeaderboard e d mid) \<noteq> [] \<Longrightarrow> fst (calculateLeaderboard e d mid) = []"
  by (simp add: calculateLeaderboard_def split: sum.splits)

lemma timestamp_calculate:
  "x \<in> set (fst (calculateLeaderboard e d mid)) \<Longrightarrow> timestamp x \<noteq> None"
  using set_calculate [of x e d mid] by (auto simp: mkEntry_def)

lemma restore_stamped: "\<forall>x \<in> set xs. timestamp x \<noteq> None \<Longrightarrow> restore e i xs = xs"
  by (induction xs arbitrary: i) auto

lemma restore_sans_timestamp: "map sans_timestamp (restore e i xs) = map sans_timestamp xs"
  by (induction xs arbitrary: i) (simp_all add: sans_timestamp_def)

lemma fetch_hit:
  "leaderboards d mid = Some doc \<Longrightarrow> \<not> rejects e GetLeaderboard \<Longrightarrow>
   fetchLeaderboard e d mid =
     \<lparr>store = d, leaderboard = restore e 0 (entries doc), loading = False,
      console = [], trace = [Displayed]\<rparr>"
  by (simp add: fetchLeaderboard_def)

lemma fetch_cached_no_write:
  "leaderboards d mid \<noteq> None \<Longrightarrow>
   store (fetchLeaderboard e d mid) = d \<and> trace (fetchLeaderboard e d mid) = [Displayed]"
  by (auto simp: fetchLeaderboard_def)

lemma fetch_write_or_same:
  "(Wrote mid \<in> set (trace (fetchLeaderboard e d mid)) \<and>
      leaderboards (store (fetchLeaderboard e d mid)) mid \<noteq> None \<and>
      length (filter (\<lambda>ev. ev = Wrote mid) (trace (fetchLeaderboard e d mid))) = 1)
   \<or> (store (fetchLeaderboard e d mid) = d \<and>
      filter (\<lambda>ev. ev = Wrote mid) (trace (fetchLeaderboard e d mid)) = [])"
  by (auto simp: fetchLeaderboard_def split: option.splits prod.splits)

lemma repeated_cached_no_write:
  "leaderboards d mid \<noteq> None \<Longrightarrow> r \<in> set (fetchRepeatedly es d mid) \<Longrightarrow>
   store r = d \<and> trace r = [Displayed]"
proof (induction es arbitrary: r)
  case Nil
  then show ?case by simp
next
  case (Cons e es)
  from fetch_cached_no_write [OF Cons.prems(1), of e]
  have same: "store (fetchLeaderboard e d mid) = d" "trace (fetchLeaderboard e d mid) = [Displayed]"
    by simp_all
  from Cons.prems(2) have "r = fetchLeaderboard e d mid \<or> r \<in> set (fetchRepeatedly es d mid)"
    by (simp add: Let_def same)
  with same Cons.IH [OF Cons.prems(1)] show ?case by blast
qed

lemma repeated_cached_writes:
  "leaderboards d mid \<noteq> None \<Longrightarrow>
   filter (\<lambda>ev. ev = Wrote mid) (concat (map trace (fetchRepeatedly es d mid))) = []"
  using repeated_cached_no_write [of d mid _ es]
  by (auto simp: filter_empty_conv)

lemma repeated_at_most_one_write:
  "length (filter (\<lambda>ev. ev = Wrote mid) (concat (map trace (fetchRepeatedly es d mid)))) \<le> 1"
proof (induction es arbitrary: d)
  case Nil
  then show ?case by simp
next
  case (Cons e es)
  let ?r = "fetchLeaderboard e d mid"
  from fetch_write_or_same [of mid e d] show ?case
  proof
    assume w: "Wrote mid \<in> set (trace ?r) \<and> leaderboards (store ?r) mid \<noteq> None \<and>
      length (filter (\<lambda>ev. ev = Wrote mid) (trace ?r)) = 1"
    then have "filter (\<lambda>ev. ev = Wrote mid) (concat (map trace (fetchRepeatedly es (store ?r) mid))) = []"
      by (simp add: repeated_cached_writes)
    with w show ?thesis by (simp add: Let_def)
  next
    assume s: "store ?r = d \<and> filter (\<lambda>ev. ev = Wrote mid) (trace ?r) = []"
    with Cons.IH [of d] show ?thesis by (simp add: Let_def)
  qed
qed

lemma fetch_miss_written:
  assumes "no_failure e" "map_of (matches d) mid = Some m" "leaderboards d mid = None"
    and "predictionsFor d mid \<noteq> []"
  shows "fetchLeaderboard e d mid =
     \<lparr>store = d\<lparr>leaderboards := (leaderboards d)
         (mid \<mapsto> \<lparr>entries = fst (calculateLeaderboard e d mid), lastUpdated = now e AtLastUpdated\<rparr>)\<rparr>,
      leaderboard = fst (calculateLeaderboard e d mid), loading = False, console = [],
      trace = [Computed mid, Wrote mid, Displayed]\<rparr>"
proof -
  from assms(1) have nf: "\<not> rejects e GetPlayers" "\<not> rejects e GetMatch" "\<not> rejects e GetPredictions"
    "\<not> rejects e GetLeaderboard" "\<not> rejects e SetLeaderboard"
    by (simp_all add: no_failure_def)
  from calculate_ok_empty_iff [OF nf(1-3) assms(2)] assms(4)
  have ne: "fst (calculateLeaderboard e d mid) \<noteq> []" by simp
  have logged: "snd (calculateLeaderboard e d mid) = []"
    by (simp add: calculate_ok [OF nf(1-3) assms(2)])
  from ne logged nf(4,5) assms(3) show ?thesis
    by (simp add: fetchLeaderboard_def case_prod_beta)
qed

lemma fetch_miss_empty:
  assumes "\<not> rejects e GetLeaderboard" "leaderboards d mid = None"
    and "fst (calculateLeaderboard e d mid) = []"
  shows "fetchLeaderboard e d mid =
     \<lparr>store = d, leaderboard = [], loading = False, console = snd (calculateLeaderboard e d mid),
      trace = [Computed mid, Displayed]\<rparr>"
  using assms by (simp add: fetchLeaderboard_def case_prod_beta)

text \<open>
  Claim C3. On a cache miss for an existing match, with no store call failing: when the
  match has a prediction, the computed entries are non-empty and are written under the
  match id before they are displayed; when it has none, the computation returns the empty
  list without an error, the empty list is displayed, nothing is written, and a later
  call computes again.
\<close>

theorem miss_persists_nonempty_result_only:
  assumes "no_failure e" and "map_of (matches d) mid = Some m" and "leaderboards d mid = None"
  shows "(predictionsFor d mid \<noteq> [] \<longrightarrow>
            fst (calculateLeaderboard e d mid) \<noteq> [] \<and>
            fetchLeaderboard e d mid =
              \<lparr>store = d\<lparr>leaderboards := (leaderboards d)
                  (mid \<mapsto> \<lparr>entries = fst (calculateLeaderboard e d mid),
                           lastUpdated = now e AtLastUpdated\<rparr>)\<rparr>,
               leaderboard = fst (calculateLeaderboard e d mid), loading = False, console = [],
               trace = [Computed mid, Wrote mid, Displayed]\<rparr>)
       \<and> (predictionsFor d mid = [] \<longrightarrow>
            calculateLeaderboard e d mid = ([], []) \<and>
            fetchLeaderboard e d mid =
              \<lparr>store = d, leaderboard = [], loading = False, console = [],
               trace = [Computed mid, Displayed]\<rparr> \<and>
            (\<forall>e'. \<not> rejects e' GetLeaderboard \<longrightarrow>
               Computed mid \<in> set (trace (fetchLeaderboard e' (store (fetchLeaderboard e d mid)) mid))))"
proof (intro conjI impI)
  from assms(1) have nf: "\<not> rejects e GetPlayers" "\<not> rejects e GetMatch" "\<not> rejects e GetPredictions"
    "\<not> rejects e GetLeaderboard" "\<not> rejects e SetLeaderboard"
    by (simp_all add: no_failure_def)
  {
    assume ne: "predictionsFor d mid \<noteq> []"
    from calculate_ok_empty_iff [OF nf(1-3) assms(2)] ne
    show "fst (calculateLeaderboard e d mid) \<noteq> []" by simp
    from fetch_miss_written [OF assms ne]
    show "fetchLeaderboard e d mid =
              \<lparr>store = d\<lparr>leaderboards := (leaderboards d)
                  (mid \<mapsto> \<lparr>entries = fst (calculateLeaderboard e d mid),
                           lastUpdated = now e AtLastUpdated\<rparr>)\<rparr>,
               leaderboard = fst (calculateLeaderboard e d mid), loading = False, console = [],
               trace = [Computed mid, Wrote mid, Displayed]\<rparr>" .
  }
  {
    assume em: "predictionsFor d mid = []"
    from calculate_ok_empty_iff [OF nf(1-3) assms(2)] em
    have fst_em: "fst (calculateLeaderboard e d mid) = []" by simp
    moreover have "snd (calculateLeaderboard e d mid) = []"
      by (simp add: calculate_ok [OF nf(1-3) assms(2)])
    ultimately show calc: "calculateLeaderboard e d mid = ([], [])"
      by (simp add: prod_eq_iff)
    from fetch_miss_empty [OF nf(4) assms(3) fst_em] calc
    show r: "fetchLeaderboard e d mid =
              \<lparr>store = d, leaderboard = [], loading = False, console = [],
               trace = [Computed mid, Displayed]\<rparr>"
      by simp
    show "\<forall>e'. \<not> rejects e' GetLeaderboard \<longrightarrow>
               Computed mid \<in> set (trace (fetchLeaderboard e' (store (fetchLeaderboard e d mid)) mid))"
      using assms(3) by (simp add: r) (simp add: fetchLeaderboard_def case_prod_beta)
  }
qed

lemma ex_no_failure: "no_failure ex_env"
  by (simp add: no_failure_def ex_env_def)

theorem miss_persists_nonempty_result_only_witness:
  "no_failure ex_env \<and> leaderboards ex_db ''M1'' = None \<and> leaderboards ex_db ''M3'' = None
   \<and> map_of (matches ex_db) ''M1'' = Some (mk_match 1000 completed)
   \<and> map_of (matches ex_db) ''M3'' = Some (mk_match 3000 completed)
   \<and> predictionsFor ex_db ''M1'' \<noteq> [] \<and> predictionsFor ex_db ''M3'' = []
   \<and> trace (fetchLeaderboard ex_env ex_db ''M1'') = [Computed ''M1'', Wrote ''M1'', Displayed]
   \<and> leaderboards (store (fetchLeaderboard ex_env ex_db ''M1'')) ''M1'' =
       Some \<lparr>entries = fst (calculateLeaderboard ex_env ex_db ''M1''), lastUpdated = 5500\<rparr>
   \<and> store (fetchLeaderboard ex_env ex_db ''M3'') = ex_db
   \<and> leaderboard (fetchLeaderboard ex_env ex_db ''M3'') = []
   \<and> Computed ''M3'' \<in> set (trace (fetchLeaderboard ex_env_later (store (fetchLeaderboard ex_env ex_db ''M3'')) ''M3''))"
proof -
  have miss: "leaderboards ex_db ''M1'' = None" "leaderboards ex_db ''M3'' = None"
    by (simp_all add: ex_db_def)
  have m1: "map_of (matches ex_db) ''M1'' = Some (mk_match 1000 completed)"
    and m3: "map_of (matches ex_db) ''M3'' = Some (mk_match 3000 completed)"
    by (simp_all add: ex_db_def)
  have p1: "predictionsFor ex_db ''M1'' \<noteq> []" and p3: "predictionsFor ex_db ''M3'' = []"
    by (simp_all add: predictionsFor_def ex_db_def mk_prediction_def)
  have later: "\<not> rejects ex_env_later GetLeaderboard"
    by (simp add: ex_env_later_def)
  have clock: "now ex_env AtLastUpdated = 5500"
    by (simp add: ex_env_def ex_clock_def)
  note a = miss_persists_nonempty_result_only [OF ex_no_failure m1 miss(1)]
  note b = miss_persists_nonempty_result_only [OF ex_no_failure m3 miss(2)]
  from a p1 have
    "fetchLeaderboard ex_env ex_db ''M1'' =
       \<lparr>store = ex_db\<lparr>leaderboards := (leaderboards ex_db)
           (''M1'' \<mapsto> \<lparr>entries = fst (calculateLeaderboard ex_env ex_db ''M1''),
                    lastUpdated = now ex_env AtLastUpdated\<rparr>)\<rparr>,
        leaderboard = fst (calculateLeaderboard ex_env ex_db ''M1''), loading = False, console = [],
        trace = [Computed ''M1'', Wrote ''M1'', Displayed]\<rparr>"
    by blast
  then have a': "trace (fetchLeaderboard ex_env ex_db ''M1'') = [Computed ''M1'', Wrote ''M1'', Displayed]"
    "leaderboards (store (fetchLeaderboard ex_env ex_db ''M1'')) ''M1'' =
       Some \<lparr>entries = fst (calculateLeaderboard ex_env ex_db ''M1''), lastUpdated = 5500\<rparr>"
    by (simp_all add: clock)
  from b p3 have b1: "fetchLeaderboard ex_env ex_db ''M3'' =
              \<lparr>store = ex_db, leaderboard = [], loading = False, console = [],
               trace = [Computed ''M3'', Displayed]\<rparr>"
    and b2: "\<forall>e'. \<not> rejects e' GetLeaderboard \<longrightarrow>
               Computed ''M3'' \<in> set (trace (fetchLeaderboard e' (store (fetchLeaderboard ex_env ex_db ''M3'')) ''M3''))"
    by blast+
  from b1 have b': "store (fetchLeaderboard ex_env ex_db ''M3'') = ex_db"
    "leaderboard (fetchLeaderboard ex_env ex_db ''M3'') = []"
    by simp_all
  from b2 later have b'': "Computed ''M3'' \<in> set (trace (fetchLeaderboard ex_env_later (store (fetchLeaderboard ex_env ex_db ''M3'')) ''M3''))"
    by blast
  from ex_no_failure miss m1 m3 p1 p3 a' b' b'' show ?thesis by blast
qed

text \<open>
  Claim C4, as the code has it. An unknown match id raises \<open>MatchNotFound\<close> and a
  rejected store call raises \<open>StorageUnavailable\<close> inside the \<^verbatim>\<open>try\<close> block; both
  functions catch the error, log it and go on with the empty list. The caller sees an empty
  leaderboard, and the store is left as it was.
\<close>

theorem errors_are_caught_logged_and_shown_as_empty:
  "(\<not> rejects e GetPlayers \<and> \<not> rejects e GetMatch \<and> map_of (matches d) mid = None \<longrightarrow>
      calculateLeaderboard_try e d mid = Inl MatchNotFound \<and>
      calculateLeaderboard e d mid = ([], [MatchNotFound]))
   \<and> (rejects e GetPlayers \<or> rejects e GetMatch \<or>
        (map_of (matches d) mid \<noteq> None \<and> rejects e GetPredictions) \<longrightarrow>
      calculateLeaderboard_try e d mid = Inl StorageUnavailable \<and>
      calculateLeaderboard e d mid = ([], [StorageUnavailable]))
   \<and> (rejects e GetLeaderboard \<longrightarrow>
      fetchLeaderboard e d mid =
        \<lparr>store = d, leaderboard = [], loading = False, console = [StorageUnavailable],
         trace = [Displayed]\<rparr>)
   \<and> (\<not> rejects e GetLeaderboard \<and> leaderboards d mid = None \<and>
        snd (calculateLeaderboard e d mid) \<noteq> [] \<longrightarrow>
      fetchLeaderboard e d mid =
        \<lparr>store = d, leaderboard = [], loading = False,
         console = snd (calculateLeaderboard e d mid), trace = [Computed mid, Displayed]\<rparr>)
   \<and> (\<not> rejects e GetLeaderboard \<and> leaderboards d mid = None \<and>
        fst (calculateLeaderboard e d mid) \<noteq> [] \<and> rejects e SetLeaderboard \<longrightarrow>
      fetchLeaderboard e d mid =
        \<lparr>store = d, leaderboard = [], loading = False,
         console = [StorageUnavailable], trace = [Computed mid, Displayed]\<rparr>)"
proof (intro conjI impI)
  assume "\<not> rejects e GetPlayers \<and> \<not> rejects e GetMatch \<and> map_of (matches d) mid = None"
  then show "calculateLeaderboard_try e d mid = Inl MatchNotFound"
    and "calculateLeaderboard e d mid = ([], [MatchNotFound])"
    by (simp_all add: calculateLeaderboard_def calculateLeaderboard_try_def)
next
  assume "rejects e GetPlayers \<or> rejects e GetMatch \<or>
        (map_of (matches d) mid \<noteq> None \<and> rejects e GetPredictions)"
  then show "calculateLeaderboard_try e d mid = Inl StorageUnavailable"
    and "calculateLeaderboard e d mid = ([], [StorageUnavailable])"
    by (auto simp: calculateLeaderboard_def calculateLeaderboard_try_def)
next
  assume "rejects e GetLeaderboard"
  then show "fetchLeaderboard e d mid =
        \<lparr>store = d, leaderboard = [], loading = False, console = [StorageUnavailable],
         trace = [Displayed]\<rparr>"
    by (simp add: fetchLeaderboard_def)
next
  assume a: "\<not> rejects e GetLeaderboard \<and> leaderboards d mid = None \<and>
        snd (calculateLeaderboard e d mid) \<noteq> []"
  then have "fst (calculateLeaderboard e d mid) = []"
    by (simp add: calculate_error_empty)
  with a show "fetchLeaderboard e d mid =
        \<lparr>store = d, leaderboard = [], loading = False,
         console = snd (calculateLeaderboard e d mid), trace = [Computed mid, Displayed]\<rparr>"
    by (simp add: fetch_miss_empty)
next
  assume a: "\<not> rejects e GetLeaderboard \<and> leaderboards d mid = None \<and>
        fst (calculateLeaderboard e d mid) \<noteq> [] \<and> rejects e SetLeaderboard"
  then have "snd (calculateLeaderboard e d mid) = []"
    using calculate_error_empty by blast
  with a show "fetchLeaderboard e d mid =
        \<lparr>store = d, leaderboard = [], loading = False,
         console = [StorageUnavailable], trace = [Computed mid, Displayed]\<rparr>"
    by (simp add: fetchLeaderboard_def case_prod_beta)
qed

theorem errors_are_caught_logged_and_shown_as_empty_witness:
  "map_of (matches ex_db) ''M404'' = None
   \<and> calculateLeaderboard ex_env ex_db ''M404'' = ([], [MatchNotFound])
   \<and> rejects (ex_env_rejecting GetPredictions) GetPredictions
   \<and> calculateLeaderboard (ex_env_rejecting GetPredictions) ex_db ''M1'' = ([], [StorageUnavailable])
   \<and> rejects (ex_env_rejecting GetLeaderboard) GetLeaderboard
   \<and> leaderboard (fetchLeaderboard (ex_env_rejecting GetLeaderboard) ex_db ''M1'') = []
   \<and> snd (calculateLeaderboard ex_env ex_db ''M404'') \<noteq> []
   \<and> console (fetchLeaderboard ex_env ex_db ''M404'') = [MatchNotFound]
   \<and> fst (calculateLeaderboard (ex_env_rejecting SetLeaderboard) ex_db ''M1'') \<noteq> []
   \<and> store (fetchLeaderboard (ex_env_rejecting SetLeaderboard) ex_db ''M1'') = ex_db
   \<and> leaderboard (fetchLeaderboard (ex_env_rejecting SetLeaderboard) ex_db ''M1'') = []"
proof -
  have h1: "\<not> rejects ex_env GetPlayers \<and> \<not> rejects ex_env GetMatch \<and>
      map_of (matches ex_db) ''M404'' = None"
    by (simp add: ex_env_def ex_db_def)
  have r2: "rejects (ex_env_rejecting GetPredictions) GetPredictions"
    by (simp add: ex_env_rejecting_def)
  have h3: "rejects (ex_env_rejecting GetLeaderboard) GetLeaderboard"
    by (simp add: ex_env_rejecting_def)
  have h2': "rejects (ex_env_rejecting GetPredictions) GetPlayers \<or>
      rejects (ex_env_rejecting GetPredictions) GetMatch \<or>
      (map_of (matches ex_db) ''M1'' \<noteq> None \<and> rejects (ex_env_rejecting GetPredictions) GetPredictions)"
    by (simp add: ex_env_rejecting_def ex_db_def)
  note t1 = errors_are_caught_logged_and_shown_as_empty [of ex_env ex_db "''M404''"]
  note t2 = errors_are_caught_logged_and_shown_as_empty [of "ex_env_rejecting GetPredictions" ex_db "''M1''"]
  note t3 = errors_are_caught_logged_and_shown_as_empty [of "ex_env_rejecting GetLeaderboard" ex_db "''M1''"]
  note t5 = errors_are_caught_logged_and_shown_as_empty [of "ex_env_rejecting SetLeaderboard" ex_db "''M1''"]
  from t1 h1 have c1: "calculateLeaderboard ex_env ex_db ''M404'' = ([], [MatchNotFound])"
    by blast
  from t2 h2' have c2: "calculateLeaderboard (ex_env_rejecting GetPredictions) ex_db ''M1'' = ([], [StorageUnavailable])"
    by blast
  from t3 h3 have c3: "leaderboard (fetchLeaderboard (ex_env_rejecting GetLeaderboard) ex_db ''M1'') = []"
    by simp
  have h4: "\<not> rejects ex_env GetLeaderboard \<and> leaderboards ex_db ''M404'' = None \<and>
        snd (calculateLeaderboard ex_env ex_db ''M404'') \<noteq> []"
    by (simp add: c1) (simp add: ex_env_def ex_db_def)
  from t1 h4 have c4: "console (fetchLeaderboard ex_env ex_db ''M404'') = [MatchNotFound]"
    by (simp add: c1)
  have "map userId (fst (calculateLeaderboard (ex_env_rejecting SetLeaderboard) ex_db ''M1'')) =
      [''B'', ''A'', ''D'', ''E'', ''C'']"
    by (simp add: example_defs calculate_defs ex_env_rejecting_def)
  then have ne: "fst (calculateLeaderboard (ex_env_rejecting SetLeaderboard) ex_db ''M1'') \<noteq> []"
    by auto
  have h5: "\<not> rejects (ex_env_rejecting SetLeaderboard) GetLeaderboard \<and> leaderboards ex_db ''M1'' = None \<and>
        fst (calculateLeaderboard (ex_env_rejecting SetLeaderboard) ex_db ''M1'') \<noteq> [] \<and>
        rejects (ex_env_rejecting SetLeaderboard) SetLeaderboard"
    using ne by (simp add: ex_env_rejecting_def ex_db_def)
  from t5 h5 have c5: "store (fetchLeaderboard (ex_env_rejecting SetLeaderboard) ex_db ''M1'') = ex_db"
    "leaderboard (fetchLeaderboard (ex_env_rejecting SetLeaderboard) ex_db ''M1'') = []"
    by simp_all
  from h1 r2 h3 h4 c1 c2 c3 c4 c5 ne show ?thesis by blast
qed

text \<open>
  An unknown match and a failing predictions query are displayed exactly like the match
  \<open>M3\<close>, which has no prediction: the errors are not propagated.
\<close>

theorem unknown_match_and_store_failure_give_empty_result:
  "map_of (matches ex_db) ''M404'' = None
   \<and> calculateLeaderboard_try ex_env ex_db ''M404'' = Inl MatchNotFound
   \<and> fst (calculateLeaderboard ex_env ex_db ''M404'') = []
   \<and> leaderboard (fetchLeaderboard ex_env ex_db ''M404'') = []
   \<and> rejects (ex_env_rejecting GetPredictions) GetPredictions
   \<and> calculateLeaderboard_try (ex_env_rejecting GetPredictions) ex_db ''M1'' = Inl StorageUnavailable
   \<and> fst (calculateLeaderboard (ex_env_rejecting GetPredictions) ex_db ''M1'') = []
   \<and> leaderboard (fetchLeaderboard (ex_env_rejecting GetPredictions) ex_db ''M1'') = []
   \<and> leaderboard (fetchLeaderboard ex_env ex_db ''M3'') = []"
  by (simp add: fetchLeaderboard_def calculateLeaderboard_def calculateLeaderboard_try_def
      ex_db_def ex_env_def ex_env_rejecting_def predictionsFor_def mk_prediction_def slice0_def)

text \<open>
  Claim C5, as the code has it. When a snapshot is stored for the match and the cache read
  succeeds, every call leaves the store as it is and neither computes nor writes; it
  displays the stored entries, giving an entry stored without a timestamp the current
  instant. Stored entries that all carry a timestamp are displayed unchanged by every
  call. Any sequence of calls, cached or not, completes at most one write.
\<close>

theorem cache_hit_returns_stored_entries:
  "(leaderboards d mid = Some doc \<and> (\<forall>e \<in> set es. \<not> rejects e GetLeaderboard) \<longrightarrow>
      (\<forall>r \<in> set (fetchRepeatedly es d mid).
         store r = d \<and> trace r = [Displayed] \<and> console r = [] \<and>
         map sans_timestamp (leaderboard r) = map sans_timestamp (entries doc) \<and>
         ((\<forall>x \<in> set (entries doc). timestamp x \<noteq> None) \<longrightarrow> leaderboard r = entries doc)))
   \<and> (leaderboards d mid = Some doc \<and> \<not> rejects e GetLeaderboard \<longrightarrow>
        leaderboard (fetchLeaderboard e d mid) = restore e 0 (entries doc))
   \<and> length (filter (\<lambda>ev. ev = Wrote mid) (concat (map trace (fetchRepeatedly es d mid)))) \<le> 1"
proof (intro conjI impI ballI)
  show "length (filter (\<lambda>ev. ev = Wrote mid) (concat (map trace (fetchRepeatedly es d mid)))) \<le> 1"
    by (rule repeated_at_most_one_write)
next
  assume "leaderboards d mid = Some doc \<and> \<not> rejects e GetLeaderboard"
  then show "leaderboard (fetchLeaderboard e d mid) = restore e 0 (entries doc)"
    by (simp add: fetch_hit)
next
  fix r
  assume a: "leaderboards d mid = Some doc \<and> (\<forall>e \<in> set es. \<not> rejects e GetLeaderboard)"
    and r: "r \<in> set (fetchRepeatedly es d mid)"
  have "\<exists>e \<in> set es. r = fetchLeaderboard e d mid"
    using a r
  proof (induction es)
    case Nil
    then show ?case by simp
  next
    case (Cons e es)
    from Cons.prems(1) have "leaderboards d mid \<noteq> None" by simp
    from fetch_cached_no_write [OF this, of e]
    have "store (fetchLeaderboard e d mid) = d" by simp
    with Cons show ?case by (auto simp: Let_def)
  qed
  then obtain e where e: "e \<in> set es" and r_eq: "r = fetchLeaderboard e d mid"
    by blast
  from a e have "r = \<lparr>store = d, leaderboard = restore e 0 (entries doc), loading = False,
      console = [], trace = [Displayed]\<rparr>"
    by (simp add: r_eq fetch_hit)
  then show "store r = d" and "trace r = [Displayed]" and "console r = []"
    and "map sans_timestamp (leaderboard r) = map sans_timestamp (entries doc)"
    and "\<forall>x \<in> set (entries doc). timestamp x \<noteq> None \<Longrightarrow> leaderboard r = entries doc"
    by (simp_all add: restore_sans_timestamp restore_stamped)
qed

theorem cache_hit_returns_stored_entries_witness:
  "leaderboards ex_stamped_db ''M3'' = Some ex_stamped_doc
   \<and> \<not> rejects ex_env GetLeaderboard \<and> \<not> rejects ex_env_later GetLeaderboard
   \<and> map timestamp (entries ex_stamped_doc) = [Some 3500]
   \<and> map leaderboard (fetchRepeatedly [ex_env, ex_env_later] ex_stamped_db ''M3'') =
       [entries ex_stamped_doc, entries ex_stamped_doc]
   \<and> map trace (fetchRepeatedly [ex_env, ex_env_later] ex_stamped_db ''M3'') =
       [[Displayed], [Displayed]]
   \<and> map store (fetchRepeatedly [ex_env, ex_env_later] ex_stamped_db ''M3'') =
       [ex_stamped_db, ex_stamped_db]"
proof -
  let ?rs = "fetchRepeatedly [ex_env, ex_env_later] ex_stamped_db ''M3''"
  have hit: "leaderboards ex_stamped_db ''M3'' = Some ex_stamped_doc"
    by (simp add: ex_stamped_db_def)
  have ok: "\<not> rejects ex_env GetLeaderboard" "\<not> rejects ex_env_later GetLeaderboard"
    by (simp_all add: ex_env_def ex_env_later_def)
  have stamps: "map timestamp (entries ex_stamped_doc) = [Some 3500]"
    by (simp add: ex_stamped_doc_def)
  then have stamped: "\<forall>x \<in> set (entries ex_stamped_doc). timestamp x \<noteq> None"
    by (simp add: ex_stamped_doc_def)
  from ok have all_ok: "\<forall>e \<in> set [ex_env, ex_env_later]. \<not> rejects e GetLeaderboard"
    by simp
  obtain r1 r2 where rs: "?rs = [r1, r2]"
    by (simp add: Let_def)
  from cache_hit_returns_stored_entries [of ex_stamped_db "''M3''" ex_stamped_doc
      "[ex_env, ex_env_later]"] hit all_ok stamped
  have "\<forall>r \<in> set ?rs. store r = ex_stamped_db \<and> trace r = [Displayed] \<and>
      leaderboard r = entries ex_stamped_doc"
    by blast
  then have "map leaderboard ?rs = [entries ex_stamped_doc, entries ex_stamped_doc]"
    and "map trace ?rs = [[Displayed], [Displayed]]"
    and "map store ?rs = [ex_stamped_db, ex_stamped_db]"
    unfolding rs by simp_all
  with hit ok stamps show ?thesis by blast
qed

text \<open>
  A stored entry without a timestamp is not returned as stored, and two calls at
  different instants display different snapshots.
\<close>

theorem cached_entry_without_timestamp_is_changed:
  "leaderboards ex_cached_db ''M3'' = Some \<lparr>entries = [ex_entry], lastUpdated = 4000\<rparr>
   \<and> \<not> rejects ex_env GetLeaderboard \<and> \<not> rejects ex_env_later GetLeaderboard
   \<and> leaderboard (fetchLeaderboard ex_env ex_cached_db ''M3'') = [ex_entry\<lparr>timestamp := Some 5000\<rparr>]
   \<and> leaderboard (fetchLeaderboard ex_env_later ex_cached_db ''M3'') = [ex_entry\<lparr>timestamp := Some 9000\<rparr>]
   \<and> [ex_entry\<lparr>timestamp := Some 5000\<rparr>] \<noteq> [ex_entry]
   \<and> [ex_entry\<lparr>timestamp := Some 5000\<rparr>] \<noteq> [ex_entry\<lparr>timestamp := Some 9000\<rparr>]
   \<and> map leaderboard (fetchRepeatedly [ex_env, ex_env_later] ex_cached_db ''M3'') =
       [[ex_entry\<lparr>timestamp := Some 5000\<rparr>], [ex_entry\<lparr>timestamp := Some 9000\<rparr>]]"
  by (simp add: fetchLeaderboard_def ex_cached_db_def ex_env_def ex_env_later_def ex_clock_def
      ex_entry_def Let_def)

lemma map_insert_by:
  assumes "\<And>a b. cmp' (f a) (f b) = cmp a b"
  shows "map f (insert_by cmp x ys) = insert_by cmp' (f x) (map f ys)"
  by (induction ys) (simp_all add: assms)

lemma map_array_sort:
  assumes "\<And>a b. cmp' (f a) (f b) = cmp a b"
  shows "map f (array_sort cmp xs) = array_sort cmp' (map f xs)"
  by (induction xs) (simp_all add: map_insert_by [where cmp' = cmp', OF assms])

lemma sans_timestamp_pushEntries:
  "map sans_timestamp (pushEntries e1 pd mid md i ps) =
   map sans_timestamp (pushEntries e2 pd mid md j ps)"
  by (induction ps arbitrary: i j) (simp_all add: sans_timestamp_def mkEntry_def)

lemma sans_timestamp_ranked:
  "map sans_timestamp (slice0 n (array_sort byCorrectDesc (pushEntries e1 pd mid md i ps))) =
   map sans_timestamp (slice0 n (array_sort byCorrectDesc (pushEntries e2 pd mid md j ps)))"
proof -
  have cmp: "\<And>a b. byCorrectDesc (sans_timestamp a) (sans_timestamp b) = byCorrectDesc a b"
    by (simp add: byCorrectDesc_def sans_timestamp_def)
  have "map sans_timestamp (array_sort byCorrectDesc (pushEntries e1 pd mid md i ps)) =
        map sans_timestamp (array_sort byCorrectDesc (pushEntries e2 pd mid md j ps))"
    by (simp add: map_array_sort [where cmp' = byCorrectDesc, OF cmp]
        sans_timestamp_pushEntries [of e1 pd mid md i ps e2 j])
  then show ?thesis
    by (simp add: slice0_def take_map [symmetric])
qed

section \<open>Determinism\<close>

text \<open>
  Claim C6, as the code has it. Two computations over the same data, with the same store
  calls succeeding, give the same entries in the same order, equal in every field except
  \<^verbatim>\<open>timestamp\<close>, and log the same errors.
\<close>

theorem recomputation_differs_only_in_timestamps:
  assumes "rejects e1 = rejects e2"
  shows "map sans_timestamp (fst (calculateLeaderboard e1 d mid)) =
           map sans_timestamp (fst (calculateLeaderboard e2 d mid))
       \<and> snd (calculateLeaderboard e1 d mid) = snd (calculateLeaderboard e2 d mid)"
  using assms sans_timestamp_ranked [of 10 e1 _ mid _ 0 _ e2 0]
  by (simp add: calculateLeaderboard_def calculateLeaderboard_try_def split: option.splits)

theorem recomputation_differs_only_in_timestamps_witness:
  "rejects ex_env = rejects ex_env_later
   \<and> map sans_timestamp (fst (calculateLeaderboard ex_env ex_db ''M1'')) =
       map sans_timestamp (fst (calculateLeaderboard ex_env_later ex_db ''M1''))
   \<and> snd (calculateLeaderboard ex_env ex_db ''M1'') = snd (calculateLeaderboard ex_env_later ex_db ''M1'')
   \<and> map userId (fst (calculateLeaderboard ex_env ex_db ''M1'')) = [''B'', ''A'', ''D'', ''E'', ''C'']"
proof -
  have same: "rejects ex_env = rejects ex_env_later"
    by (simp add: ex_env_def ex_env_later_def)
  have ids: "map userId (fst (calculateLeaderboard ex_env ex_db ''M1'')) = [''B'', ''A'', ''D'', ''E'', ''C'']"
    by (simp add: example_defs calculate_defs)
  from recomputation_differs_only_in_timestamps [OF same, of ex_db "''M1''"] same ids
  show ?thesis by blast
qed

text \<open>
  The \<^verbatim>\<open>timestamp\<close> field holds the instant of the computation, so a second
  computation at a later instant gives different entries.
\<close>

theorem recomputation_changes_timestamps:
  "map timestamp (fst (calculateLeaderboard ex_env ex_db ''M1'')) =
     [Some 5001, Some 5000, Some 5003, Some 5004, Some 5002]
   \<and> map timestamp (fst (calculateLeaderboard ex_env_later ex_db ''M1'')) =
     [Some 9001, Some 9000, Some 9003, Some 9004, Some 9002]
   \<and> fst (calculateLeaderboard ex_env ex_db ''M1'') \<noteq> fst (calculateLeaderboard ex_env_later ex_db ''M1'')"
proof -
  have a: "map timestamp (fst (calculateLeaderboard ex_env ex_db ''M1'')) =
     [Some 5001, Some 5000, Some 5003, Some 5004, Some 5002]"
    by (simp add: example_defs calculate_defs)
  have b: "map timestamp (fst (calculateLeaderboard ex_env_later ex_db ''M1'')) =
     [Some 9001, Some 9000, Some 9003, Some 9004, Some 9002]"
    by (simp add: example_defs calculate_defs)
  from a b have "fst (calculateLeaderboard ex_env ex_db ''M1'') \<noteq> fst (calculateLeaderboard ex_env_later ex_db ''M1'')"
    by auto
  with a b show ?thesis by blast
qed

section \<open>Completed matches\<close>

text \<open>
  Claim C8. When the matches query succeeds, the list of completed matches holds exactly
  the match documents whose status is \<open>completed\<close>, each once, ordered by timestamp
  descending (documents with equal timestamps in query order); no match of another status
  is in it.
\<close>

theorem completed_matches_most_recent_first:
  assumes "\<not> rejects e GetCompletedMatches"
  shows "mset (completedMatches (fetchCompletedMatches e d)) =
           mset (map with_id (filter (\<lambda>doc. status (snd doc) = completed) (matches d)))
       \<and> sorted_wrt (\<lambda>a b. match_timestamp b \<le> match_timestamp a)
           (completedMatches (fetchCompletedMatches e d))
       \<and> (\<forall>m \<in> set (completedMatches (fetchCompletedMatches e d)). status m = completed)
       \<and> (\<forall>t. filter (\<lambda>m. match_timestamp m = t) (completedMatches (fetchCompletedMatches e d)) =
               filter (\<lambda>m. match_timestamp m = t)
                 (map with_id (filter (\<lambda>doc. status (snd doc) = completed) (matches d))))"
proof -
  let ?docs = "map with_id (filter (\<lambda>doc. status (snd doc) = completed) (matches d))"
  have ms: "completedMatches (fetchCompletedMatches e d) = array_sort byTimestampDesc ?docs"
    using assms by (simp add: fetchCompletedMatches_def completedDocs_def Let_def split: list.splits)
  have 1: "mset (array_sort byTimestampDesc ?docs) = mset ?docs"
    by (rule mset_array_sort)
  have 2: "sorted_wrt (\<lambda>a b. match_timestamp b \<le> match_timestamp a) (array_sort byTimestampDesc ?docs)"
    by (simp add: byTimestampDesc_eq sorted_array_sort)
  have "status (with_id doc) = status (snd doc)" for doc :: "string \<times> match_data"
    by (simp add: with_id_def match_data.extend_def)
  then have 3: "\<forall>m \<in> set (array_sort byTimestampDesc ?docs). status m = completed"
    by (auto simp: set_array_sort)
  have 4: "\<forall>t. filter (\<lambda>m. match_timestamp m = t) (array_sort byTimestampDesc ?docs) =
               filter (\<lambda>m. match_timestamp m = t) ?docs"
    by (simp add: byTimestampDesc_eq filter_array_sort)
  from 1 2 3 4 show ?thesis
    unfolding ms by blast
qed

theorem completed_matches_most_recent_first_witness:
  "\<not> rejects ex_env GetCompletedMatches
   \<and> map match_id (completedMatches (fetchCompletedMatches ex_env ex_db)) = [''M3'', ''M1'']
   \<and> map match_timestamp (completedMatches (fetchCompletedMatches ex_env ex_db)) = [3000, 1000]
   \<and> sorted_wrt (\<lambda>a b. match_timestamp b \<le> match_timestamp a)
       (completedMatches (fetchCompletedMatches ex_env ex_db))
   \<and> mset (completedMatches (fetchCompletedMatches ex_env ex_db)) =
       mset (map with_id (filter (\<lambda>doc. status (snd doc) = completed) (matches ex_db)))"
proof -
  have ok: "\<not> rejects ex_env GetCompletedMatches"
    by (simp add: ex_env_def)
  have ids: "map match_id (completedMatches (fetchCompletedMatches ex_env ex_db)) = [''M3'', ''M1'']"
    and ts: "map match_timestamp (completedMatches (fetchCompletedMatches ex_env ex_db)) = [3000, 1000]"
    by (simp_all add: fetchCompletedMatches_def completedDocs_def ex_env_def ex_db_def mk_match_def
        with_id_def match_data.extend_def byTimestampDesc_def)
  from completed_matches_most_recent_first [OF ok, of ex_db] ok ids ts show ?thesis
    by blast
qed

section \<open>Calls for the same uncached match\<close>

text \<open>Three steps of one call are the call.\<close>

lemma three_steps:
  "run es mid [i, i, i] (d, ts) = (d', ts') \<Longrightarrow> i < length ts \<Longrightarrow> i < length es \<Longrightarrow>
   ts ! i = AtStart \<Longrightarrow>
   d' = store (fetchLeaderboard (es ! i) d mid) \<and>
   ts' = ts[i := done_of (fetchLeaderboard (es ! i) d mid)]"
  by (auto simp: fetchLeaderboard_def done_of_def case_prod_beta split: option.splits if_splits)

lemma run_append: "run es mid (s1 @ s2) st = run es mid s2 (run es mid s1 st)"
proof (induction s1 arbitrary: st)
  case Nil
  then show ?case by simp
next
  case (Cons i s1)
  obtain d ts where st: "st = (d, ts)" by (cases st)
  show ?case
    by (simp add: st Cons.IH split: prod.splits)
qed

lemma run_sequential:
  assumes "drop k es = fs" and "length ts = length es"
    and "\<forall>j. k \<le> j \<and> j < length es \<longrightarrow> ts ! j = AtStart"
  shows "run es mid (concat (map (\<lambda>i. [i, i, i]) [k..<length es])) (d, ts) =
           (last (d # map store (fetchRepeatedly fs d mid)),
            take k ts @ map done_of (fetchRepeatedly fs d mid))"
  using assms
proof (induction fs arbitrary: k d ts)
  case Nil
  then have "length es \<le> k" by simp
  with Nil.prems(2) show ?case by simp
next
  case (Cons e fs)
  have k: "k < length es"
  proof (rule ccontr)
    assume "\<not> k < length es"
    then have "drop k es = []" by simp
    with Cons.prems(1) show False by simp
  qed
  from Cons_nth_drop_Suc [OF k] Cons.prems(1) have e: "es ! k = e" and rest: "drop (Suc k) es = fs"
    by simp_all
  let ?r = "fetchLeaderboard e d mid"
  let ?sched = "concat (map (\<lambda>i. [i, i, i]) [Suc k..<length es])"
  obtain d1 ts1 where step: "run es mid [k, k, k] (d, ts) = (d1, ts1)"
    by (cases "run es mid [k, k, k] (d, ts)")
  from Cons.prems(2) k have kts: "k < length ts"
    by simp
  from Cons.prems(3) k have start: "ts ! k = AtStart"
    by blast
  from three_steps [OF step kts k start]
  have d1: "d1 = store ?r" and ts1: "ts1 = ts[k := done_of ?r]"
    by (simp_all only: e)
  have len1: "length ts1 = length es"
    by (simp add: ts1 Cons.prems(2))
  have start1: "\<forall>j. Suc k \<le> j \<and> j < length es \<longrightarrow> ts1 ! j = AtStart"
  proof (intro allI impI)
    fix j assume j: "Suc k \<le> j \<and> j < length es"
    then have "ts ! j = AtStart" using Cons.prems(3) by simp
    with j show "ts1 ! j = AtStart" by (simp add: ts1)
  qed
  have "[k..<length es] = k # [Suc k..<length es]"
    using k by (rule upt_conv_Cons)
  then have "concat (map (\<lambda>i. [i, i, i]) [k..<length es]) = [k, k, k] @ ?sched"
    by simp
  then have "run es mid (concat (map (\<lambda>i. [i, i, i]) [k..<length es])) (d, ts) =
        run es mid ?sched (run es mid [k, k, k] (d, ts))"
    by (simp only: run_append)
  also have "\<dots> = run es mid ?sched (d1, ts1)"
    by (simp only: step)
  also have "\<dots> = (last (d1 # map store (fetchRepeatedly fs d1 mid)),
            take (Suc k) ts1 @ map done_of (fetchRepeatedly fs d1 mid))"
    by (rule Cons.IH [OF rest len1 start1])
  finally have run_eq: "run es mid (concat (map (\<lambda>i. [i, i, i]) [k..<length es])) (d, ts) =
      (last (d1 # map store (fetchRepeatedly fs d1 mid)),
       take (Suc k) ts1 @ map done_of (fetchRepeatedly fs d1 mid))" .
  have tk: "take (Suc k) ts1 = take k ts @ [done_of ?r]"
    using kts by (simp add: ts1 take_Suc_conv_app_nth)
  have unfold: "fetchRepeatedly (e # fs) d mid = ?r # fetchRepeatedly fs d1 mid"
    by (simp add: Let_def d1)
  show ?case
    unfolding run_eq unfold tk by (simp add: d1)
qed

lemma run_one_after_another:
  "run es mid (one_after_another (length es)) (d, replicate (length es) AtStart) =
     (last (d # map store (fetchRepeatedly es d mid)), map done_of (fetchRepeatedly es d mid))"
  using run_sequential [of 0 es es "replicate (length es) AtStart" mid d]
  by (simp add: one_after_another_def)

lemma repeated_hit:
  assumes "leaderboards d mid = Some doc" and "\<forall>e \<in> set es. \<not> rejects e GetLeaderboard"
    and "r \<in> set (fetchRepeatedly es d mid)"
  shows "\<exists>e \<in> set es. r = \<lparr>store = d, leaderboard = restore e 0 (entries doc), loading = False,
      console = [], trace = [Displayed]\<rparr>"
  using assms
proof (induction es)
  case Nil
  then show ?case by simp
next
  case (Cons e es)
  from Cons.prems(1,2) have hit: "fetchLeaderboard e d mid =
      \<lparr>store = d, leaderboard = restore e 0 (entries doc), loading = False,
       console = [], trace = [Displayed]\<rparr>"
    by (simp add: fetch_hit)
  from Cons.prems(3) have "r = fetchLeaderboard e d mid \<or> r \<in> set (fetchRepeatedly es d mid)"
    by (simp add: Let_def hit)
  then show ?case
  proof
    assume "r = fetchLeaderboard e d mid"
    with hit show ?thesis by simp
  next
    assume "r \<in> set (fetchRepeatedly es d mid)"
    with Cons.IH Cons.prems(1,2) show ?thesis by auto
  qed
qed

lemma map_const_replicate: "\<forall>x \<in> set xs. f x = c \<Longrightarrow> map f xs = replicate (length xs) c"
  by (induction xs) simp_all

lemma length_fetchRepeatedly: "length (fetchRepeatedly es d mid) = length es"
  by (induction es arbitrary: d) (simp_all add: Let_def)

text \<open>
  Claim C7, as the code has it. For an uncached match with a prediction and no failing
  store call, calls that run one after the other compute and write exactly once: the first
  call computes and writes, every later call displays the persisted entries without
  computing or writing. This is what the schedule \<^const>\<open>one_after_another\<close> does in
  the step model. Nothing serializes calls that overlap.
\<close>

theorem sequential_calls_compute_and_write_once:
  assumes "leaderboards d mid = None" and "map_of (matches d) mid = Some m"
    and "predictionsFor d mid \<noteq> []" and "\<forall>e' \<in> set (e # es). no_failure e'"
  shows "map trace (fetchRepeatedly (e # es) d mid) =
           [Computed mid, Wrote mid, Displayed] # replicate (length es) [Displayed]
       \<and> (\<forall>r \<in> set (fetchRepeatedly (e # es) d mid).
            leaderboard r = fst (calculateLeaderboard e d mid) \<and>
            leaderboards (store r) mid =
              Some \<lparr>entries = fst (calculateLeaderboard e d mid), lastUpdated = now e AtLastUpdated\<rparr>)
       \<and> run (e # es) mid (one_after_another (length (e # es)))
            (d, replicate (length (e # es)) AtStart) =
           (last (d # map store (fetchRepeatedly (e # es) d mid)),
            map done_of (fetchRepeatedly (e # es) d mid))"
proof -
  let ?out = "fst (calculateLeaderboard e d mid)"
  let ?doc = "\<lparr>entries = ?out, lastUpdated = now e AtLastUpdated\<rparr>"
  let ?d1 = "d\<lparr>leaderboards := (leaderboards d)(mid \<mapsto> ?doc)\<rparr>"
  let ?r = "fetchLeaderboard e d mid"
  from assms(4) have nf: "no_failure e" by simp
  from fetch_miss_written [OF nf assms(2,1,3)]
  have r: "?r = \<lparr>store = ?d1, leaderboard = ?out, loading = False, console = [],
      trace = [Computed mid, Wrote mid, Displayed]\<rparr>" .
  have hit: "leaderboards ?d1 mid = Some ?doc" by simp
  from assms(4) have ok: "\<forall>e' \<in> set es. \<not> rejects e' GetLeaderboard"
    by (simp add: no_failure_def)
  have stamped: "\<forall>x \<in> set (entries ?doc). timestamp x \<noteq> None"
    using timestamp_calculate by auto
  have rest: "store r' = ?d1 \<and> leaderboard r' = ?out \<and> trace r' = [Displayed]"
    if "r' \<in> set (fetchRepeatedly es ?d1 mid)" for r'
  proof -
    from repeated_hit [OF hit ok that] obtain e' where
      "r' = \<lparr>store = ?d1, leaderboard = restore e' 0 (entries ?doc), loading = False,
        console = [], trace = [Displayed]\<rparr>"
      by blast
    then show ?thesis
      using restore_stamped [OF stamped] by simp
  qed
  have store_r: "store ?r = ?d1" and trace_r: "trace ?r = [Computed mid, Wrote mid, Displayed]"
    and shown_r: "leaderboard ?r = ?out"
    by (simp_all only: r outcome.simps)
  have unfold: "fetchRepeatedly (e # es) d mid = ?r # fetchRepeatedly es ?d1 mid"
    by (simp only: fetchRepeatedly.simps Let_def store_r)
  have "\<forall>r' \<in> set (fetchRepeatedly es ?d1 mid). trace r' = [Displayed]"
    using rest by blast
  from map_const_replicate [OF this]
  have "map trace (fetchRepeatedly es ?d1 mid) = replicate (length es) [Displayed]"
    by (simp only: length_fetchRepeatedly)
  then have 1: "map trace (fetchRepeatedly (e # es) d mid) =
           [Computed mid, Wrote mid, Displayed] # replicate (length es) [Displayed]"
    by (simp only: unfold list.map trace_r)
  have 2: "\<forall>r \<in> set (fetchRepeatedly (e # es) d mid).
            leaderboard r = ?out \<and> leaderboards (store r) mid = Some ?doc"
  proof
    fix r' assume "r' \<in> set (fetchRepeatedly (e # es) d mid)"
    then have "r' = ?r \<or> r' \<in> set (fetchRepeatedly es ?d1 mid)"
      by (simp only: unfold set_ConsD)
    then show "leaderboard r' = ?out \<and> leaderboards (store r') mid = Some ?doc"
    proof
      assume "r' = ?r"
      then show ?thesis by (simp only: shown_r store_r hit simp_thms)
    next
      assume "r' \<in> set (fetchRepeatedly es ?d1 mid)"
      from rest [OF this] show ?thesis by (simp only: hit simp_thms)
    qed
  qed
  from 1 2 run_one_after_another [of "e # es" mid d] show ?thesis by blast
qed

theorem sequential_calls_compute_and_write_once_witness:
  "leaderboards ex_db ''M1'' = None
   \<and> map_of (matches ex_db) ''M1'' = Some (mk_match 1000 completed)
   \<and> predictionsFor ex_db ''M1'' \<noteq> []
   \<and> no_failure ex_env \<and> no_failure ex_env_later
   \<and> map trace (fetchRepeatedly [ex_env, ex_env_later] ex_db ''M1'') =
       [[Computed ''M1'', Wrote ''M1'', Displayed], [Displayed]]
   \<and> map task_trace (snd (run [ex_env, ex_env_later] ''M1'' (one_after_another 2)
         (ex_db, [AtStart, AtStart]))) =
       [[Computed ''M1'', Wrote ''M1'', Displayed], [Displayed]]"
proof -
  have miss: "leaderboards ex_db ''M1'' = None"
    by (simp add: ex_db_def)
  have m1: "map_of (matches ex_db) ''M1'' = Some (mk_match 1000 completed)"
    by (simp add: ex_db_def)
  have p1: "predictionsFor ex_db ''M1'' \<noteq> []"
    by (simp add: predictionsFor_def ex_db_def mk_prediction_def)
  have nf: "no_failure ex_env" "no_failure ex_env_later"
    by (simp_all add: no_failure_def ex_env_def ex_env_later_def)
  then have all_nf: "\<forall>e' \<in> set [ex_env, ex_env_later]. no_failure e'"
    by simp
  note t = sequential_calls_compute_and_write_once [OF miss m1 p1 all_nf]
  from t have tr: "map trace (fetchRepeatedly [ex_env, ex_env_later] ex_db ''M1'') =
       [[Computed ''M1'', Wrote ''M1'', Displayed], [Displayed]]"
    by simp
  from t have "snd (run [ex_env, ex_env_later] ''M1'' (one_after_another 2) (ex_db, [AtStart, AtStart])) =
      map done_of (fetchRepeatedly [ex_env, ex_env_later] ex_db ''M1'')"
    by (simp add: numeral_2_eq_2)
  then have "map task_trace (snd (run [ex_env, ex_env_later] ''M1'' (one_after_another 2)
         (ex_db, [AtStart, AtStart]))) = map trace (fetchRepeatedly [ex_env, ex_env_later] ex_db ''M1'')"
    by (simp add: task_trace_def done_of_def comp_def)
  with tr miss m1 p1 nf show ?thesis by simp
qed

text \<open>
  Two calls whose steps alternate both miss the cache, both compute and both write.
\<close>

theorem overlapping_calls_both_compute_and_write:
  "leaderboards ex_db ''M1'' = None
   \<and> no_failure ex_env \<and> no_failure ex_env_later
   \<and> map task_trace (snd (run [ex_env, ex_env_later] ''M1'' [0, 1, 0, 1, 0, 1]
         (ex_db, [AtStart, AtStart]))) =
       [[Computed ''M1'', Wrote ''M1'', Displayed], [Computed ''M1'', Wrote ''M1'', Displayed]]"
proof -
  have "leaderboards ex_db ''M1'' = None"
    by (simp add: ex_db_def)
  moreover have "no_failure ex_env" "no_failure ex_env_later"
    by (simp_all add: no_failure_def ex_env_def ex_env_later_def)
  moreover have "map task_trace (snd (run [ex_env, ex_env_later] ''M1'' [0, 1, 0, 1, 0, 1]
         (ex_db, [AtStart, AtStart]))) =
       [[Computed ''M1'', Wrote ''M1'', Displayed], [Computed ''M1'', Wrote ''M1'', Displayed]]"
    by code_simp
  ultimately show ?thesis by blast
qed

end
